theory Spec2Isabelle
  imports Main
begin

section \<open>Data model: the tables of the public schema\<close>

text \<open>
  The tables are those of the migrations under \<^verbatim>\<open>supabase/migrations\<close>, in their
  final shape (after \<^verbatim>\<open>progress\<close>, \<^verbatim>\<open>category_id\<close> and \<^verbatim>\<open>categories\<close> were dropped
  and the counters, \<^verbatim>\<open>image_url\<close>, \<^verbatim>\<open>uploader_email\<close>, \<^verbatim>\<open>completed\<close> and
  \<^verbatim>\<open>completed_at\<close> were added). A column declared \<^verbatim>\<open>NOT NULL\<close> has its plain type; a
  nullable column is an \<open>option\<close>, with \<open>None\<close> for SQL \<^verbatim>\<open>NULL\<close>. Columns are prefixed by
  their table (\<open>p_\<close>, \<open>c_\<close>, \<open>uc_\<close>) because the tables share column names.
  A table is the list of its rows. Counts are taken in unbounded integers: a user with
  more rows than an SQL \<^verbatim>\<open>INTEGER\<close> holds is outside this model.
\<close>

type_synonym uuid = string
type_synonym timestamptz = string

record profile =
  p_id :: uuid
  p_user_id :: uuid
  p_full_name :: "string option"
  p_avatar_url :: "string option"
  p_role :: string
  p_created_at :: timestamptz
  p_updated_at :: timestamptz
  p_completed :: "int option"
  p_enrolled :: "int option"
  p_uploads :: "int option"

record course =
  c_id :: uuid
  c_title :: string
  c_description :: "string option"
  c_content_type :: string
  c_content_url :: "string option"
  c_content_text :: "string option"
  c_uploader_id :: uuid
  c_access_type :: string
  c_difficulty :: "string option"
  c_tags :: "string list option"
  c_is_approved :: "bool option"
  c_created_at :: timestamptz
  c_updated_at :: timestamptz
  c_image_url :: "string option"
  c_uploader_email :: "string option"

record user_course =
  uc_id :: uuid
  uc_user_id :: uuid
  uc_course_id :: uuid
  uc_added_at :: timestamptz
  uc_completed :: "bool option"
  uc_completed_at :: "timestamptz option"

text \<open>\<open>auth_users\<close> holds the keys of \<^verbatim>\<open>auth.users\<close>, the table of the hosted
  authentication service that the three tables reference.\<close>

record database =
  auth_users :: "uuid list"
  profiles :: "profile list"
  courses :: "course list"
  user_courses :: "user_course list"

section \<open>The statistics function and the trigger functions\<close>

text \<open>The three scalar subqueries of \<^verbatim>\<open>update_profile_stats\<close>. In SQL
  \<^verbatim>\<open>completed = TRUE\<close> is not true of a row whose \<^verbatim>\<open>completed\<close> is \<^verbatim>\<open>NULL\<close>.\<close>

definition completed_count :: "uuid \<Rightarrow> database \<Rightarrow> int" where
  "completed_count user_uuid db =
     int (length (filter (\<lambda>uc. uc_user_id uc = user_uuid \<and> uc_completed uc = Some True)
                         (user_courses db)))"

definition enrolled_count :: "uuid \<Rightarrow> database \<Rightarrow> int" where
  "enrolled_count user_uuid db =
     int (length (filter (\<lambda>uc. uc_user_id uc = user_uuid) (user_courses db)))"

definition uploads_count :: "uuid \<Rightarrow> database \<Rightarrow> int" where
  "uploads_count user_uuid db =
     int (length (filter (\<lambda>c. c_uploader_id c = user_uuid) (courses db)))"

text \<open>\<^verbatim>\<open>UPDATE public.profiles SET completed = (...), enrolled = (...), uploads = (...)
  WHERE user_id = user_uuid\<close>: every row that matches is rewritten, every other row is kept.\<close>

definition update_profile_stats :: "uuid \<Rightarrow> database \<Rightarrow> database" where
  "update_profile_stats user_uuid db =
     db\<lparr>profiles :=
          map (\<lambda>p. if p_user_id p = user_uuid
                   then p\<lparr>p_completed := Some (completed_count user_uuid db),
                          p_enrolled := Some (enrolled_count user_uuid db),
                          p_uploads := Some (uploads_count user_uuid db)\<rparr>
                   else p)
              (profiles db)\<rparr>"

text \<open>\<^verbatim>\<open>PERFORM update_profile_stats(x)\<close> where \<^verbatim>\<open>x\<close> is a column of \<^verbatim>\<open>NEW\<close> or
  \<^verbatim>\<open>OLD\<close>. In a row trigger \<^verbatim>\<open>NEW\<close> is null on \<^verbatim>\<open>DELETE\<close> and \<^verbatim>\<open>OLD\<close> is null on
  \<^verbatim>\<open>INSERT\<close>; with a null argument the \<^verbatim>\<open>WHERE user_id = NULL\<close> matches no row.
  The triggers run \<^verbatim>\<open>AFTER\<close> the row change, so the row they return
  (\<^verbatim>\<open>COALESCE(NEW, OLD)\<close>) is not used and the functions are modelled by their effect on
  the database.\<close>

definition perform_update_profile_stats :: "uuid option \<Rightarrow> database \<Rightarrow> database" where
  "perform_update_profile_stats arg db =
     (case arg of None \<Rightarrow> db | Some user_uuid \<Rightarrow> update_profile_stats user_uuid db)"

datatype tg_op = INSERT | UPDATE | DELETE

definition trigger_update_profile_stats ::
    "tg_op \<Rightarrow> user_course option \<Rightarrow> user_course option \<Rightarrow> database \<Rightarrow> database" where
  "trigger_update_profile_stats TG_OP NEW OLD db =
     (let db1 = (if TG_OP = INSERT \<or> TG_OP = UPDATE
                 then perform_update_profile_stats (map_option uc_user_id NEW) db
                 else db)
      in if TG_OP = DELETE
         then perform_update_profile_stats (map_option uc_user_id OLD) db1
         else db1)"

definition trigger_update_upload_stats ::
    "tg_op \<Rightarrow> course option \<Rightarrow> course option \<Rightarrow> database \<Rightarrow> database" where
  "trigger_update_upload_stats TG_OP NEW OLD db =
     (let db1 = (if TG_OP = INSERT \<or> TG_OP = UPDATE
                 then perform_update_profile_stats (map_option c_uploader_id NEW) db
                 else db)
      in if TG_OP = DELETE
         then perform_update_profile_stats (map_option c_uploader_id OLD) db1
         else db1)"

section \<open>Constraints declared by the schema\<close>

text \<open>
  The keys (\<^verbatim>\<open>PRIMARY KEY\<close>, \<^verbatim>\<open>UNIQUE\<close>), the \<^verbatim>\<open>CHECK\<close> constraints and the
  \<^verbatim>\<open>REFERENCES\<close> clauses of the \<^verbatim>\<open>CREATE TABLE\<close> and \<^verbatim>\<open>ALTER TABLE\<close> statements. No
  reference declares \<^verbatim>\<open>ON DELETE\<close>, so each is \<^verbatim>\<open>NO ACTION\<close>: a statement that would
  leave a dangling reference is rejected. The counters of \<^verbatim>\<open>profiles\<close> carry no
  \<^verbatim>\<open>CHECK\<close> and no \<^verbatim>\<open>NOT NULL\<close>.
\<close>

datatype error = UniqueViolation | CheckViolation | ForeignKeyViolation | RowSecurityViolation

definition unique_keys :: "database \<Rightarrow> bool" where
  "unique_keys db \<longleftrightarrow>
     distinct (auth_users db) \<and>
     distinct (map p_id (profiles db)) \<and>
     distinct (map p_user_id (profiles db)) \<and>
     distinct (map c_id (courses db)) \<and>
     distinct (map uc_id (user_courses db)) \<and>
     distinct (map (\<lambda>uc. (uc_user_id uc, uc_course_id uc)) (user_courses db))"

definition check_constraints :: "database \<Rightarrow> bool" where
  "check_constraints db \<longleftrightarrow>
     (\<forall>p \<in> set (profiles db). p_role p \<in> set [''user'', ''premium'', ''admin'']) \<and>
     (\<forall>c \<in> set (courses db).
        c_content_type c \<in> set [''video'', ''pdf'', ''text''] \<and>
        c_access_type c \<in> set [''private'', ''public'', ''premium''] \<and>
        (case c_difficulty c of None \<Rightarrow> True
         | Some d \<Rightarrow> d \<in> set [''beginner'', ''intermediate'', ''advanced'']))"

definition foreign_keys :: "database \<Rightarrow> bool" where
  "foreign_keys db \<longleftrightarrow>
     (\<forall>p \<in> set (profiles db). p_user_id p \<in> set (auth_users db)) \<and>
     (\<forall>c \<in> set (courses db).
        c_uploader_id c \<in> set (auth_users db) \<and>
        c_uploader_id c \<in> set (map p_user_id (profiles db))) \<and>
     (\<forall>uc \<in> set (user_courses db).
        uc_user_id uc \<in> set (auth_users db) \<and>
        uc_course_id uc \<in> set (map c_id (courses db)))"

definition constraint_violation :: "database \<Rightarrow> error option" where
  "constraint_violation db =
     (if \<not> unique_keys db then Some UniqueViolation
      else if \<not> check_constraints db then Some CheckViolation
      else if \<not> foreign_keys db then Some ForeignKeyViolation
      else None)"

section \<open>Statements and their row triggers\<close>

text \<open>
  A statement changes the rows of one table; when the changed table violates a
  constraint the statement is rejected and nothing is changed; otherwise the
  \<^verbatim>\<open>AFTER INSERT OR UPDATE OR DELETE ... FOR EACH ROW\<close> triggers run once for every row the
  statement changed. \<^verbatim>\<open>trigger_user_courses_stats\<close> is bound to \<^verbatim>\<open>user_courses\<close>,
  \<^verbatim>\<open>trigger_courses_upload_stats\<close> to \<^verbatim>\<open>courses\<close>; \<^verbatim>\<open>profiles\<close> has no trigger.
  An \<^verbatim>\<open>UPDATE\<close> is given by its \<^verbatim>\<open>WHERE\<close> predicate and its \<^verbatim>\<open>SET\<close> clause (a function
  on rows), a \<^verbatim>\<open>DELETE\<close> by its \<^verbatim>\<open>WHERE\<close> predicate, an \<^verbatim>\<open>INSERT\<close> by the row with its
  defaults filled in.
\<close>

definition after_rows :: "database \<Rightarrow> (database \<Rightarrow> database) list \<Rightarrow> error + database" where
  "after_rows db' row_triggers =
     (case constraint_violation db' of
        Some e \<Rightarrow> Inl e
      | None \<Rightarrow> Inr (fold (\<lambda>t. t) row_triggers db'))"

definition insert_profile :: "profile \<Rightarrow> database \<Rightarrow> error + database" where
  "insert_profile p db = after_rows (db\<lparr>profiles := profiles db @ [p]\<rparr>) []"

definition update_profiles ::
    "(profile \<Rightarrow> bool) \<Rightarrow> (profile \<Rightarrow> profile) \<Rightarrow> database \<Rightarrow> error + database" where
  "update_profiles wh st db =
     after_rows (db\<lparr>profiles := map (\<lambda>p. if wh p then st p else p) (profiles db)\<rparr>) []"

definition delete_profiles :: "(profile \<Rightarrow> bool) \<Rightarrow> database \<Rightarrow> error + database" where
  "delete_profiles wh db =
     after_rows (db\<lparr>profiles := filter (\<lambda>p. \<not> wh p) (profiles db)\<rparr>) []"

definition insert_course :: "course \<Rightarrow> database \<Rightarrow> error + database" where
  "insert_course c db =
     after_rows (db\<lparr>courses := courses db @ [c]\<rparr>)
                [trigger_update_upload_stats INSERT (Some c) None]"

definition update_courses ::
    "(course \<Rightarrow> bool) \<Rightarrow> (course \<Rightarrow> course) \<Rightarrow> database \<Rightarrow> error + database" where
  "update_courses wh st db =
     after_rows (db\<lparr>courses := map (\<lambda>c. if wh c then st c else c) (courses db)\<rparr>)
                (map (\<lambda>old. trigger_update_upload_stats UPDATE (Some (st old)) (Some old))
                     (filter wh (courses db)))"

definition delete_courses :: "(course \<Rightarrow> bool) \<Rightarrow> database \<Rightarrow> error + database" where
  "delete_courses wh db =
     after_rows (db\<lparr>courses := filter (\<lambda>c. \<not> wh c) (courses db)\<rparr>)
                (map (\<lambda>old. trigger_update_upload_stats DELETE None (Some old))
                     (filter wh (courses db)))"

definition insert_user_course :: "user_course \<Rightarrow> database \<Rightarrow> error + database" where
  "insert_user_course uc db =
     after_rows (db\<lparr>user_courses := user_courses db @ [uc]\<rparr>)
                [trigger_update_profile_stats INSERT (Some uc) None]"

definition update_user_courses ::
    "(user_course \<Rightarrow> bool) \<Rightarrow> (user_course \<Rightarrow> user_course) \<Rightarrow> database \<Rightarrow> error + database" where
  "update_user_courses wh st db =
     after_rows (db\<lparr>user_courses := map (\<lambda>uc. if wh uc then st uc else uc) (user_courses db)\<rparr>)
                (map (\<lambda>old. trigger_update_profile_stats UPDATE (Some (st old)) (Some old))
                     (filter wh (user_courses db)))"

definition delete_user_courses :: "(user_course \<Rightarrow> bool) \<Rightarrow> database \<Rightarrow> error + database" where
  "delete_user_courses wh db =
     after_rows (db\<lparr>user_courses := filter (\<lambda>uc. \<not> wh uc) (user_courses db)\<rparr>)
                (map (\<lambda>old. trigger_update_profile_stats DELETE None (Some old))
                     (filter wh (user_courses db)))"

datatype statement =
    InsertProfile profile
  | UpdateProfiles "profile \<Rightarrow> bool" "profile \<Rightarrow> profile"
  | DeleteProfiles "profile \<Rightarrow> bool"
  | InsertCourse course
  | UpdateCourses "course \<Rightarrow> bool" "course \<Rightarrow> course"
  | DeleteCourses "course \<Rightarrow> bool"
  | InsertUserCourse user_course
  | UpdateUserCourses "user_course \<Rightarrow> bool" "user_course \<Rightarrow> user_course"
  | DeleteUserCourses "user_course \<Rightarrow> bool"

fun exec :: "statement \<Rightarrow> database \<Rightarrow> error + database" where
  "exec (InsertProfile p) db = insert_profile p db"
| "exec (UpdateProfiles wh st) db = update_profiles wh st db"
| "exec (DeleteProfiles wh) db = delete_profiles wh db"
| "exec (InsertCourse c) db = insert_course c db"
| "exec (UpdateCourses wh st) db = update_courses wh st db"
| "exec (DeleteCourses wh) db = delete_courses wh db"
| "exec (InsertUserCourse uc) db = insert_user_course uc db"
| "exec (UpdateUserCourses wh st) db = update_user_courses wh st db"
| "exec (DeleteUserCourses wh) db = delete_user_courses wh db"

text \<open>A rejected statement is rolled back: the state after it is the state before it.\<close>

definition commit :: "database \<Rightarrow> error + database \<Rightarrow> database" where
  "commit db r = (case r of Inl e \<Rightarrow> db | Inr db' \<Rightarrow> db')"

fun run_statements :: "statement list \<Rightarrow> database \<Rightarrow> database" where
  "run_statements [] db = db"
| "run_statements (s # ss) db = run_statements ss (commit db (exec s db))"

section \<open>Row-level security\<close>

text \<open>
  The policies of \<^verbatim>\<open>profiles\<close>, \<^verbatim>\<open>courses\<close> and \<^verbatim>\<open>user_courses\<close> for statements that
  write. \<open>auth_uid\<close> is \<^verbatim>\<open>auth.uid()\<close>, \<open>None\<close> for an anonymous request. A \<^verbatim>\<open>USING\<close>
  predicate hides the rows it rejects from the statement; a policy \<^verbatim>\<open>FOR UPDATE\<close> with no
  \<^verbatim>\<open>WITH CHECK\<close> applies its \<^verbatim>\<open>USING\<close> predicate to the new row too, and a new row that
  fails a check is an error. \<^verbatim>\<open>profiles\<close> has no policy \<^verbatim>\<open>FOR DELETE\<close>, so no row of it is
  visible to a \<^verbatim>\<open>DELETE\<close>. The trigger functions are \<^verbatim>\<open>SECURITY DEFINER\<close> and are not
  subject to the policies.
\<close>

definition owns_profile :: "uuid option \<Rightarrow> profile \<Rightarrow> bool" where
  "owns_profile auth_uid p \<longleftrightarrow> auth_uid = Some (p_user_id p)"

definition owns_course :: "uuid option \<Rightarrow> course \<Rightarrow> bool" where
  "owns_course auth_uid c \<longleftrightarrow> auth_uid = Some (c_uploader_id c)"

definition owns_user_course :: "uuid option \<Rightarrow> user_course \<Rightarrow> bool" where
  "owns_user_course auth_uid uc \<longleftrightarrow> auth_uid = Some (uc_user_id uc)"

fun exec_as :: "uuid option \<Rightarrow> statement \<Rightarrow> database \<Rightarrow> error + database" where
  "exec_as auth_uid (InsertProfile p) db =
     (if owns_profile auth_uid p then insert_profile p db else Inl RowSecurityViolation)"
| "exec_as auth_uid (UpdateProfiles wh st) db =
     (if \<exists>p \<in> set (profiles db). wh p \<and> owns_profile auth_uid p \<and> \<not> owns_profile auth_uid (st p)
      then Inl RowSecurityViolation
      else update_profiles (\<lambda>p. wh p \<and> owns_profile auth_uid p) st db)"
| "exec_as auth_uid (DeleteProfiles wh) db = delete_profiles (\<lambda>p. False) db"
| "exec_as auth_uid (InsertCourse c) db =
     (if owns_course auth_uid c then insert_course c db else Inl RowSecurityViolation)"
| "exec_as auth_uid (UpdateCourses wh st) db =
     (if \<exists>c \<in> set (courses db). wh c \<and> owns_course auth_uid c \<and> \<not> owns_course auth_uid (st c)
      then Inl RowSecurityViolation
      else update_courses (\<lambda>c. wh c \<and> owns_course auth_uid c) st db)"
| "exec_as auth_uid (DeleteCourses wh) db =
     delete_courses (\<lambda>c. wh c \<and> owns_course auth_uid c) db"
| "exec_as auth_uid (InsertUserCourse uc) db =
     (if owns_user_course auth_uid uc then insert_user_course uc db
      else Inl RowSecurityViolation)"
| "exec_as auth_uid (UpdateUserCourses wh st) db =
     (if \<exists>uc \<in> set (user_courses db).
           wh uc \<and> owns_user_course auth_uid uc \<and> \<not> owns_user_course auth_uid (st uc)
      then Inl RowSecurityViolation
      else update_user_courses (\<lambda>uc. wh uc \<and> owns_user_course auth_uid uc) st db)"
| "exec_as auth_uid (DeleteUserCourses wh) db =
     delete_user_courses (\<lambda>uc. wh uc \<and> owns_user_course auth_uid uc) db"

section \<open>Sign-up and the requests a database serves\<close>

text \<open>
  \<^verbatim>\<open>handle_new_user\<close> runs after each insert into \<^verbatim>\<open>auth.users\<close> and inserts
  \<^verbatim>\<open>(user_id, full_name)\<close> into \<^verbatim>\<open>profiles\<close>; every other column takes its declared
  default. \<^verbatim>\<open>gen_random_uuid()\<close> and \<^verbatim>\<open>now()\<close> are inputs.
\<close>

definition handle_new_user ::
    "uuid \<Rightarrow> string option \<Rightarrow> uuid \<Rightarrow> timestamptz \<Rightarrow> database \<Rightarrow> error + database" where
  "handle_new_user new_id full_name gen_random_uuid now db =
     insert_profile
       \<lparr>p_id = gen_random_uuid, p_user_id = new_id, p_full_name = full_name,
        p_avatar_url = None, p_role = ''user'', p_created_at = now, p_updated_at = now,
        p_completed = Some 0, p_enrolled = Some 0, p_uploads = Some 0\<rparr>
       db"

definition insert_auth_user ::
    "uuid \<Rightarrow> string option \<Rightarrow> uuid \<Rightarrow> timestamptz \<Rightarrow> database \<Rightarrow> error + database" where
  "insert_auth_user new_id full_name gen_random_uuid now db =
     (let db' = db\<lparr>auth_users := auth_users db @ [new_id]\<rparr>
      in case constraint_violation db' of
           Some e \<Rightarrow> Inl e
         | None \<Rightarrow> handle_new_user new_id full_name gen_random_uuid now db')"

datatype request =
    SignUp uuid "string option" uuid timestamptz
  | Query "uuid option" statement

fun serve :: "request \<Rightarrow> database \<Rightarrow> error + database" where
  "serve (SignUp new_id full_name gen_random_uuid now) db =
     insert_auth_user new_id full_name gen_random_uuid now db"
| "serve (Query auth_uid s) db = exec_as auth_uid s db"

fun run_requests :: "request list \<Rightarrow> database \<Rightarrow> database" where
  "run_requests [] db = db"
| "run_requests (r # rs) db = run_requests rs (commit db (serve r db))"

definition empty_database :: database where
  "empty_database = \<lparr>auth_users = [], profiles = [], courses = [], user_courses = []\<rparr>"

section \<open>The client's writes to enrollments and profiles\<close>

text \<open>
  The queries the pages send, with the signed-in user as \<^verbatim>\<open>auth.uid()\<close>.
  \<^verbatim>\<open>new Date().toISOString()\<close> is the input \<open>now\<close>; the \<^verbatim>\<open>id\<close> and \<^verbatim>\<open>added_at\<close> that an
  insert leaves to the column defaults are the inputs \<open>gen_random_uuid\<close> and \<open>now\<close>.
\<close>

definition handleAddToLibrary ::
    "uuid option \<Rightarrow> uuid option \<Rightarrow> uuid \<Rightarrow> timestamptz \<Rightarrow> database \<Rightarrow> error + database" where
  "handleAddToLibrary user courseId gen_random_uuid now db =
     (case (user, courseId) of
        (Some user_id, Some course_id) \<Rightarrow>
          exec_as user
            (InsertUserCourse
               \<lparr>uc_id = gen_random_uuid, uc_user_id = user_id, uc_course_id = course_id,
                uc_added_at = now, uc_completed = Some False, uc_completed_at = None\<rparr>)
            db
      | _ \<Rightarrow> Inr db)"

definition toggleCourseCompletion ::
    "uuid \<Rightarrow> uuid \<Rightarrow> bool \<Rightarrow> timestamptz \<Rightarrow> database \<Rightarrow> error + database" where
  "toggleCourseCompletion user userCourseId currentStatus now db =
     exec_as (Some user)
       (UpdateUserCourses
          (\<lambda>uc. uc_id uc = userCourseId \<and> uc_user_id uc = user)
          (\<lambda>uc. uc\<lparr>uc_completed := Some (\<not> currentStatus),
                    uc_completed_at := (if \<not> currentStatus then Some now else None)\<rparr>))
       db"

definition handleMarkCompleted ::
    "uuid option \<Rightarrow> uuid option \<Rightarrow> bool \<Rightarrow> timestamptz \<Rightarrow> database \<Rightarrow> error + database" where
  "handleMarkCompleted user userCourseId completed now db =
     (case userCourseId of
        None \<Rightarrow> Inr db
      | Some ucid \<Rightarrow>
          exec_as user
            (UpdateUserCourses
               (\<lambda>uc. uc_id uc = ucid)
               (\<lambda>uc. uc\<lparr>uc_completed := Some (\<not> completed),
                         uc_completed_at := (if \<not> completed then Some now else None)\<rparr>))
            db)"

definition removeCourseFromLibrary :: "uuid \<Rightarrow> uuid \<Rightarrow> database \<Rightarrow> error + database" where
  "removeCourseFromLibrary user userCourseId db =
     exec_as (Some user)
       (DeleteUserCourses (\<lambda>uc. uc_id uc = userCourseId \<and> uc_user_id uc = user)) db"

definition updateProfile ::
    "uuid \<Rightarrow> string \<Rightarrow> string \<Rightarrow> timestamptz \<Rightarrow> database \<Rightarrow> error + database" where
  "updateProfile user fullName avatarSeed now db =
     (let avatarUrl = ''https://api.dicebear.com/7.x/avataaars/svg?seed='' @ avatarSeed
      in exec_as (Some user)
           (UpdateProfiles
              (\<lambda>p. p_user_id p = user)
              (\<lambda>p. p\<lparr>p_full_name := Some fullName, p_avatar_url := Some avatarUrl,
                       p_updated_at := now\<rparr>))
           db)"

section \<open>Properties of states and statements\<close>

text \<open>The three counters of a profile row, in the order \<^verbatim>\<open>completed\<close>, \<^verbatim>\<open>enrolled\<close>,
  \<^verbatim>\<open>uploads\<close>.\<close>

definition counters :: "profile \<Rightarrow> int option \<times> int option \<times> int option" where
  "counters p = (p_completed p, p_enrolled p, p_uploads p)"

text \<open>The central invariant for one user: every profile row of the user stores the number
  of the user's enrollments, of the user's completed enrollments and of the courses the
  user uploaded.\<close>

definition stats_consistent :: "uuid \<Rightarrow> database \<Rightarrow> bool" where
  "stats_consistent U db \<longleftrightarrow>
     (\<forall>p \<in> set (profiles db). p_user_id p = U \<longrightarrow>
        p_enrolled p =
          Some (int (length (filter (\<lambda>uc. uc_user_id uc = U) (user_courses db)))) \<and>
        p_completed p =
          Some (int (length (filter (\<lambda>uc. uc_user_id uc = U \<and> uc_completed uc = Some True)
                                    (user_courses db)))) \<and>
        p_uploads p =
          Some (int (length (filter (\<lambda>c. c_uploader_id c = U) (courses db)))))"

definition accepted :: "error + database \<Rightarrow> bool" where
  "accepted r = (case r of Inl e \<Rightarrow> False | Inr db' \<Rightarrow> True)"

text \<open>Statements on \<^verbatim>\<open>courses\<close> or \<^verbatim>\<open>user_courses\<close>, and statements whose
  \<^verbatim>\<open>UPDATE\<close> leaves the owner column (\<^verbatim>\<open>uploader_id\<close>, \<^verbatim>\<open>user_id\<close>) of every row it
  updates as it was.\<close>

fun targets_enrollments_or_courses :: "statement \<Rightarrow> bool" where
  "targets_enrollments_or_courses (InsertProfile p) = False"
| "targets_enrollments_or_courses (UpdateProfiles wh st) = False"
| "targets_enrollments_or_courses (DeleteProfiles wh) = False"
| "targets_enrollments_or_courses s = True"

fun keeps_owner :: "statement \<Rightarrow> bool" where
  "keeps_owner (UpdateCourses wh st) = (\<forall>c. wh c \<longrightarrow> c_uploader_id (st c) = c_uploader_id c)"
| "keeps_owner (UpdateUserCourses wh st) =
     (\<forall>uc. wh uc \<longrightarrow> uc_user_id (st uc) = uc_user_id uc)"
| "keeps_owner s = True"

text \<open>The same for the rows that are in the table when the statement runs.\<close>

fun keeps_owner_in :: "database \<Rightarrow> statement \<Rightarrow> bool" where
  "keeps_owner_in db (UpdateCourses wh st) =
     (\<forall>c \<in> set (courses db). wh c \<longrightarrow> c_uploader_id (st c) = c_uploader_id c)"
| "keeps_owner_in db (UpdateUserCourses wh st) =
     (\<forall>uc \<in> set (user_courses db). wh uc \<longrightarrow> uc_user_id (st uc) = uc_user_id uc)"
| "keeps_owner_in db s = True"

text \<open>What a statement does, read off its definition: the table after the row changes,
  and the users its row triggers pass to \<^verbatim>\<open>update_profile_stats\<close>, in order.\<close>

fun changed_rows :: "statement \<Rightarrow> database \<Rightarrow> database" where
  "changed_rows (InsertProfile p) db = db\<lparr>profiles := profiles db @ [p]\<rparr>"
| "changed_rows (UpdateProfiles wh st) db =
     db\<lparr>profiles := map (\<lambda>p. if wh p then st p else p) (profiles db)\<rparr>"
| "changed_rows (DeleteProfiles wh) db = db\<lparr>profiles := filter (\<lambda>p. \<not> wh p) (profiles db)\<rparr>"
| "changed_rows (InsertCourse c) db = db\<lparr>courses := courses db @ [c]\<rparr>"
| "changed_rows (UpdateCourses wh st) db =
     db\<lparr>courses := map (\<lambda>c. if wh c then st c else c) (courses db)\<rparr>"
| "changed_rows (DeleteCourses wh) db = db\<lparr>courses := filter (\<lambda>c. \<not> wh c) (courses db)\<rparr>"
| "changed_rows (InsertUserCourse uc) db = db\<lparr>user_courses := user_courses db @ [uc]\<rparr>"
| "changed_rows (UpdateUserCourses wh st) db =
     db\<lparr>user_courses := map (\<lambda>uc. if wh uc then st uc else uc) (user_courses db)\<rparr>"
| "changed_rows (DeleteUserCourses wh) db =
     db\<lparr>user_courses := filter (\<lambda>uc. \<not> wh uc) (user_courses db)\<rparr>"

fun recomputed_users :: "statement \<Rightarrow> database \<Rightarrow> uuid list" where
  "recomputed_users (InsertCourse c) db = [c_uploader_id c]"
| "recomputed_users (UpdateCourses wh st) db =
     map (\<lambda>old. c_uploader_id (st old)) (filter wh (courses db))"
| "recomputed_users (DeleteCourses wh) db = map c_uploader_id (filter wh (courses db))"
| "recomputed_users (InsertUserCourse uc) db = [uc_user_id uc]"
| "recomputed_users (UpdateUserCourses wh st) db =
     map (\<lambda>old. uc_user_id (st old)) (filter wh (user_courses db))"
| "recomputed_users (DeleteUserCourses wh) db = map uc_user_id (filter wh (user_courses db))"
| "recomputed_users s db = []"

text \<open>Some statement of the sequence was accepted and its trigger recomputed \<open>U\<close>.\<close>

fun touched :: "uuid \<Rightarrow> statement list \<Rightarrow> database \<Rightarrow> bool" where
  "touched U [] db = False"
| "touched U (s # ss) db =
     ((accepted (exec s db) \<and> U \<in> set (recomputed_users s db))
      \<or> touched U ss (commit db (exec s db)))"

text \<open>The statement a policy lets through: the \<^verbatim>\<open>WHERE\<close> predicate narrowed by the
  \<^verbatim>\<open>USING\<close> predicate.\<close>

fun visible_to :: "uuid option \<Rightarrow> statement \<Rightarrow> statement" where
  "visible_to auth_uid (UpdateProfiles wh st) =
     UpdateProfiles (\<lambda>p. wh p \<and> owns_profile auth_uid p) st"
| "visible_to auth_uid (DeleteProfiles wh) = DeleteProfiles (\<lambda>p. False)"
| "visible_to auth_uid (UpdateCourses wh st) =
     UpdateCourses (\<lambda>c. wh c \<and> owns_course auth_uid c) st"
| "visible_to auth_uid (DeleteCourses wh) = DeleteCourses (\<lambda>c. wh c \<and> owns_course auth_uid c)"
| "visible_to auth_uid (UpdateUserCourses wh st) =
     UpdateUserCourses (\<lambda>uc. wh uc \<and> owns_user_course auth_uid uc) st"
| "visible_to auth_uid (DeleteUserCourses wh) =
     DeleteUserCourses (\<lambda>uc. wh uc \<and> owns_user_course auth_uid uc)"
| "visible_to auth_uid s = s"

text \<open>A counter that holds a number that is not negative, and the states in which
  every counter does.\<close>

definition counter_nonneg :: "int option \<Rightarrow> bool" where
  "counter_nonneg v = (case v of None \<Rightarrow> False | Some n \<Rightarrow> 0 \<le> n)"

definition counters_nonneg :: "database \<Rightarrow> bool" where
  "counters_nonneg db \<longleftrightarrow>
     (\<forall>p \<in> set (profiles db).
        counter_nonneg (p_completed p) \<and> counter_nonneg (p_enrolled p) \<and>
        counter_nonneg (p_uploads p))"

text \<open>Statements that do not themselves assign a counter: an insert into \<^verbatim>\<open>profiles\<close>
  that leaves the counters to their default, an update of \<^verbatim>\<open>profiles\<close> whose \<^verbatim>\<open>SET\<close>
  clause keeps them, and every statement on another table.\<close>

fun leaves_counters :: "statement \<Rightarrow> bool" where
  "leaves_counters (InsertProfile p) =
     (p_completed p = Some 0 \<and> p_enrolled p = Some 0 \<and> p_uploads p = Some 0)"
| "leaves_counters (UpdateProfiles wh st) = (\<forall>p. wh p \<longrightarrow> counters (st p) = counters p)"
| "leaves_counters s = True"

fun request_leaves_counters :: "request \<Rightarrow> bool" where
  "request_leaves_counters (SignUp new_id full_name gen_random_uuid now) = True"
| "request_leaves_counters (Query auth_uid s) = leaves_counters s"

text \<open>Sign-ups and requests on \<^verbatim>\<open>courses\<close> or \<^verbatim>\<open>user_courses\<close>.\<close>

fun request_on_enrollments_or_courses :: "request \<Rightarrow> bool" where
  "request_on_enrollments_or_courses (SignUp new_id full_name gen_random_uuid now) = True"
| "request_on_enrollments_or_courses (Query auth_uid s) = targets_enrollments_or_courses s"

section \<open>Example rows, filters and states\<close>

text \<open>The filters \<^verbatim>\<open>.eq('id', v)\<close> and \<^verbatim>\<open>.eq('user_id', v)\<close> of a query and some
  \<^verbatim>\<open>SET\<close> clauses, as named functions.\<close>

definition user_course_id_is :: "uuid \<Rightarrow> user_course \<Rightarrow> bool" where
  "user_course_id_is v uc \<longleftrightarrow> uc_id uc = v"

definition course_id_is :: "uuid \<Rightarrow> course \<Rightarrow> bool" where
  "course_id_is v c \<longleftrightarrow> c_id c = v"

definition profile_user_id_is :: "uuid \<Rightarrow> profile \<Rightarrow> bool" where
  "profile_user_id_is v p \<longleftrightarrow> p_user_id p = v"

definition set_user_id :: "uuid \<Rightarrow> user_course \<Rightarrow> user_course" where
  "set_user_id v uc = uc\<lparr>uc_user_id := v\<rparr>"

definition set_completed_flag :: "bool \<Rightarrow> user_course \<Rightarrow> user_course" where
  "set_completed_flag v uc = uc\<lparr>uc_completed := Some v\<rparr>"

definition set_completed_counter :: "int \<Rightarrow> profile \<Rightarrow> profile" where
  "set_completed_counter v p = p\<lparr>p_completed := Some v\<rparr>"

definition profile_row :: "uuid \<Rightarrow> uuid \<Rightarrow> int \<Rightarrow> int \<Rightarrow> int \<Rightarrow> profile" where
  "profile_row i u c e n =
     \<lparr>p_id = i, p_user_id = u, p_full_name = None, p_avatar_url = None, p_role = ''user'',
      p_created_at = ''t0'', p_updated_at = ''t0'',
      p_completed = Some c, p_enrolled = Some e, p_uploads = Some n\<rparr>"

definition course_row :: "uuid \<Rightarrow> uuid \<Rightarrow> course" where
  "course_row i u =
     \<lparr>c_id = i, c_title = ''Course'', c_description = None, c_content_type = ''text'',
      c_content_url = None, c_content_text = Some ''Text'', c_uploader_id = u,
      c_access_type = ''public'', c_difficulty = None, c_tags = None,
      c_is_approved = Some True, c_created_at = ''t0'', c_updated_at = ''t0'',
      c_image_url = None, c_uploader_email = None\<rparr>"

definition user_course_row :: "uuid \<Rightarrow> uuid \<Rightarrow> uuid \<Rightarrow> user_course" where
  "user_course_row i u c =
     \<lparr>uc_id = i, uc_user_id = u, uc_course_id = c, uc_added_at = ''t0'',
      uc_completed = Some False, uc_completed_at = None\<rparr>"

text \<open>Two users; \<open>u1\<close> uploaded course \<open>c1\<close> and is enrolled in it, \<open>u2\<close> uploaded
  \<open>c2\<close>. In \<open>library_db\<close> the counters agree with the rows. \<open>stale_db\<close> has the same
  rows and every counter of \<open>u1\<close> at \<open>0\<close>, as the counters are when the columns are added
  with their default to a database that already has rows.\<close>

definition library_db :: database where
  "library_db =
     \<lparr>auth_users = [''u1'', ''u2''],
      profiles = [profile_row ''p1'' ''u1'' 0 1 1, profile_row ''p2'' ''u2'' 0 0 1],
      courses = [course_row ''c1'' ''u1'', course_row ''c2'' ''u2''],
      user_courses = [user_course_row ''e1'' ''u1'' ''c1'']\<rparr>"

definition stale_db :: database where
  "stale_db =
     \<lparr>auth_users = [''u1'', ''u2''],
      profiles = [profile_row ''p1'' ''u1'' 0 0 0, profile_row ''p2'' ''u2'' 0 0 1],
      courses = [course_row ''c1'' ''u1'', course_row ''c2'' ''u2''],
      user_courses = [user_course_row ''e1'' ''u1'' ''c1'']\<rparr>"

text \<open>A statement that enrolls \<open>u1\<close> in \<open>c2\<close> and one that marks the enrollment \<open>e1\<close>
  completed; a statement that hands the enrollment \<open>e1\<close> of \<open>u1\<close> over to \<open>u2\<close>.\<close>

definition enroll_and_complete :: "statement list" where
  "enroll_and_complete =
     [InsertUserCourse (user_course_row ''e2'' ''u1'' ''c2''),
      UpdateUserCourses (user_course_id_is ''e1'') (set_completed_flag True)]"

definition reassign_enrollment :: statement where
  "reassign_enrollment = UpdateUserCourses (user_course_id_is ''e1'') (set_user_id ''u2'')"

text \<open>Requests that sign both users up and bring an empty database to the rows of
  \<open>library_db\<close>; the last request is refused by the insert policy of \<^verbatim>\<open>user_courses\<close>.
  \<open>negative_counter_requests\<close> signs \<open>u1\<close> up and lets \<open>u1\<close> write \<^verbatim>\<open>completed = -1\<close> to the
  own profile row.\<close>

definition set_full_name :: "string \<Rightarrow> profile \<Rightarrow> profile" where
  "set_full_name v p = p\<lparr>p_full_name := Some v\<rparr>"

definition library_requests :: "request list" where
  "library_requests =
     [SignUp ''u1'' None ''p1'' ''t0'',
      SignUp ''u2'' None ''p2'' ''t0'',
      Query (Some ''u1'') (InsertCourse (course_row ''c1'' ''u1'')),
      Query (Some ''u2'') (InsertCourse (course_row ''c2'' ''u2'')),
      Query (Some ''u1'') (InsertUserCourse (user_course_row ''e1'' ''u1'' ''c1'')),
      Query (Some ''u2'') (UpdateProfiles (profile_user_id_is ''u2'') (set_full_name ''Ada'')),
      Query (Some ''u2'') (InsertUserCourse (user_course_row ''e3'' ''u1'' ''c2''))]"

definition negative_counter_requests :: "request list" where
  "negative_counter_requests =
     [SignUp ''u1'' None ''p1'' ''t0'',
      Query (Some ''u1'')
        (UpdateProfiles (profile_user_id_is ''u1'') (set_completed_counter (- 1)))]"

text \<open>Enrolling \<open>u1\<close> in \<open>c2\<close> and removing that enrollment again; marking an enrollment
  completed and then incomplete through \<^verbatim>\<open>toggleCourseCompletion\<close>; and \<open>library_db\<close>
  after \<open>u1\<close> wrote \<^verbatim>\<open>completed = 2\<close> to the own profile row.\<close>

definition enroll_c2 :: statement where
  "enroll_c2 = InsertUserCourse (user_course_row ''e2'' ''u1'' ''c2'')"

definition unenroll_c2 :: statement where
  "unenroll_c2 = DeleteUserCourses (user_course_id_is ''e2'')"

definition unenroll_e1 :: statement where
  "unenroll_e1 = DeleteUserCourses (user_course_id_is ''e1'')"

definition mark_then_unmark ::
    "uuid \<Rightarrow> uuid \<Rightarrow> timestamptz \<Rightarrow> timestamptz \<Rightarrow> database \<Rightarrow> database" where
  "mark_then_unmark user userCourseId now1 now2 db =
     (let db1 = commit db (toggleCourseCompletion user userCourseId False now1 db)
      in commit db1 (toggleCourseCompletion user userCourseId True now2 db1))"

definition drifted_db :: database where
  "drifted_db =
     commit library_db
       (exec_as (Some ''u1'')
          (UpdateProfiles (profile_user_id_is ''u1'') (set_completed_counter 2)) library_db)"

text \<open>The scenario of a fresh user: \<open>u1\<close> and \<open>u2\<close> sign up and \<open>u2\<close> uploads \<open>c1\<close>;
  then \<open>u1\<close> adds \<open>c1\<close> to the library, marks it completed, uploads \<open>c2\<close> and removes
  \<open>c1\<close> from the library.\<close>

definition fresh_db :: database where
  "fresh_db =
     run_requests
       [SignUp ''u1'' None ''p1'' ''t0'',
        SignUp ''u2'' None ''p2'' ''t0'',
        Query (Some ''u2'') (InsertCourse (course_row ''c1'' ''u2''))]
       empty_database"

definition after_enroll :: database where
  "after_enroll =
     commit fresh_db (handleAddToLibrary (Some ''u1'') (Some ''c1'') ''e1'' ''t0'' fresh_db)"

definition after_complete :: database where
  "after_complete =
     commit after_enroll (toggleCourseCompletion ''u1'' ''e1'' False ''t2'' after_enroll)"

definition after_upload :: database where
  "after_upload =
     commit after_complete
       (exec_as (Some ''u1'') (InsertCourse (course_row ''c2'' ''u1'')) after_complete)"

definition after_unenroll :: database where
  "after_unenroll = commit after_upload (removeCourseFromLibrary ''u1'' ''e1'' after_upload)"

lemmas example_defs = library_db_def stale_db_def profile_row_def course_row_def
  user_course_row_def user_course_id_is_def course_id_is_def profile_user_id_is_def
  set_user_id_def set_completed_flag_def set_completed_counter_def

lemmas statement_defs = insert_profile_def update_profiles_def delete_profiles_def
  insert_course_def update_courses_def delete_courses_def insert_user_course_def
  update_user_courses_def delete_user_courses_def after_rows_def constraint_violation_def
  unique_keys_def check_constraints_def foreign_keys_def trigger_update_profile_stats_def
  trigger_update_upload_stats_def perform_update_profile_stats_def update_profile_stats_def
  completed_count_def enrolled_count_def uploads_count_def commit_def accepted_def

lemmas request_defs = empty_database_def insert_auth_user_def handle_new_user_def
  owns_profile_def owns_course_def owns_user_course_def

lemma user_course_id_is_fun: "user_course_id_is v = (\<lambda>uc. uc_id uc = v)"
  by (simp add: fun_eq_iff user_course_id_is_def)

section \<open>What \<^verbatim>\<open>update_profile_stats\<close> writes\<close>

lemma recompute_tables [simp]:
  "auth_users (update_profile_stats u db) = auth_users db"
  "courses (update_profile_stats u db) = courses db"
  "user_courses (update_profile_stats u db) = user_courses db"
  by (simp_all add: update_profile_stats_def)

lemma recompute_counts [simp]:
  "completed_count v (update_profile_stats u db) = completed_count v db"
  "enrolled_count v (update_profile_stats u db) = enrolled_count v db"
  "uploads_count v (update_profile_stats u db) = uploads_count v db"
  by (simp_all add: completed_count_def enrolled_count_def uploads_count_def)

lemma recompute_profiles:
  "profiles (update_profile_stats u db) =
     map (\<lambda>p. if p_user_id p = u
              then p\<lparr>p_completed := Some (completed_count u db),
                     p_enrolled := Some (enrolled_count u db),
                     p_uploads := Some (uploads_count u db)\<rparr>
              else p) (profiles db)"
  by (simp add: update_profile_stats_def)

lemma ball_map_rows: "(\<forall>y \<in> set (map f xs). P y) \<longleftrightarrow> (\<forall>x \<in> set xs. P (f x))"
  by simp

lemma stats_consistent_counts:
  "stats_consistent U db \<longleftrightarrow>
     (\<forall>p \<in> set (profiles db). p_user_id p = U \<longrightarrow>
        p_enrolled p = Some (enrolled_count U db) \<and>
        p_completed p = Some (completed_count U db) \<and>
        p_uploads p = Some (uploads_count U db))"
  by (simp add: stats_consistent_def completed_count_def enrolled_count_def uploads_count_def)

lemma recompute_establishes: "stats_consistent U (update_profile_stats U db)"
  unfolding stats_consistent_counts recompute_profiles ball_map_rows by simp

lemma recompute_preserves: "stats_consistent U db \<Longrightarrow> stats_consistent U (update_profile_stats V db)"
  unfolding stats_consistent_counts recompute_profiles ball_map_rows by simp

lemma recompute_idem: "update_profile_stats u (update_profile_stats u db) = update_profile_stats u db"
  by (simp add: update_profile_stats_def completed_count_def enrolled_count_def uploads_count_def comp_def cong: map_cong)

lemma recompute_noop: "\<forall>p \<in> set (profiles db). p_user_id p \<noteq> u \<Longrightarrow> update_profile_stats u db = db"
  by (simp add: update_profile_stats_def map_idI)

text \<open>
  Claim C3. Calling \<^verbatim>\<open>update_profile_stats\<close> a second time changes nothing, and the
  counters it writes depend only on the rows of \<^verbatim>\<open>user_courses\<close> and \<^verbatim>\<open>courses\<close>: two
  databases with the same rows in these tables get the same counters for the user.
\<close>

theorem update_profile_stats_idempotent:
  "update_profile_stats u (update_profile_stats u db) = update_profile_stats u db \<and>
   (user_courses db1 = user_courses db2 \<and> courses db1 = courses db2 \<longrightarrow>
      (\<forall>p1 \<in> set (profiles (update_profile_stats u db1)).
         \<forall>p2 \<in> set (profiles (update_profile_stats u db2)).
           p_user_id p1 = u \<and> p_user_id p2 = u \<longrightarrow> counters p1 = counters p2))"
proof (intro conjI impI ballI)
  show "update_profile_stats u (update_profile_stats u db) = update_profile_stats u db"
    by (rule recompute_idem)
next
  fix p1 p2
  assume rows: "user_courses db1 = user_courses db2 \<and> courses db1 = courses db2"
    and p1: "p1 \<in> set (profiles (update_profile_stats u db1))"
    and p2: "p2 \<in> set (profiles (update_profile_stats u db2))"
    and u: "p_user_id p1 = u \<and> p_user_id p2 = u"
  have c1: "stats_consistent u (update_profile_stats u db1)"
    and c2: "stats_consistent u (update_profile_stats u db2)"
    by (rule recompute_establishes)+
  from c1 p1 u have "counters p1 = (Some (completed_count u db1), Some (enrolled_count u db1),
      Some (uploads_count u db1))"
    by (simp add: stats_consistent_counts counters_def)
  moreover from c2 p2 u have "counters p2 = (Some (completed_count u db2),
      Some (enrolled_count u db2), Some (uploads_count u db2))"
    by (simp add: stats_consistent_counts counters_def)
  ultimately show "counters p1 = counters p2"
    using rows by (simp add: completed_count_def enrolled_count_def uploads_count_def)
qed

theorem update_profile_stats_idempotent_witness:
  "user_courses stale_db = user_courses library_db \<and> courses stale_db = courses library_db \<and>
   counters (hd (profiles (update_profile_stats ''u1'' stale_db))) =
   counters (hd (profiles (update_profile_stats ''u1'' library_db)))"
proof -
  have rows: "user_courses stale_db = user_courses library_db \<and>
              courses stale_db = courses library_db"
    by (simp add: example_defs)
  have p1: "hd (profiles (update_profile_stats ''u1'' stale_db))
              \<in> set (profiles (update_profile_stats ''u1'' stale_db))"
    by (simp add: example_defs update_profile_stats_def)
  have p2: "hd (profiles (update_profile_stats ''u1'' library_db))
              \<in> set (profiles (update_profile_stats ''u1'' library_db))"
    by (simp add: example_defs update_profile_stats_def)
  have u: "p_user_id (hd (profiles (update_profile_stats ''u1'' stale_db))) = ''u1'' \<and>
           p_user_id (hd (profiles (update_profile_stats ''u1'' library_db))) = ''u1''"
    by (simp add: example_defs update_profile_stats_def)
  from update_profile_stats_idempotent[of "''u1''" stale_db stale_db library_db]
  have "counters (hd (profiles (update_profile_stats ''u1'' stale_db))) =
        counters (hd (profiles (update_profile_stats ''u1'' library_db)))"
    using rows p1 p2 u by blast
  with rows show ?thesis by blast
qed

text \<open>
  Claim C6. For a user with no row in \<^verbatim>\<open>profiles\<close>, \<^verbatim>\<open>update_profile_stats\<close> updates
  no row and returns the database as it was. The function has no failing branch: it is
  total and returns a database.
\<close>

theorem update_profile_stats_without_profile:
  assumes "u \<notin> set (map p_user_id (profiles db))"
  shows "update_profile_stats u db = db"
proof -
  from assms have "\<forall>p \<in> set (profiles db). p_user_id p \<noteq> u" by auto
  then show ?thesis by (rule recompute_noop)
qed

theorem update_profile_stats_without_profile_witness:
  "''u3'' \<notin> set (map p_user_id (profiles library_db)) \<and>
   update_profile_stats ''u3'' library_db = library_db"
proof -
  have h: "''u3'' \<notin> set (map p_user_id (profiles library_db))"
    by (simp add: example_defs)
  have "update_profile_stats ''u3'' library_db = library_db"
    using h by (rule update_profile_stats_without_profile)
  with h show ?thesis by blast
qed

text \<open>
  Claim C9. \<^verbatim>\<open>update_profile_stats(u)\<close> leaves \<^verbatim>\<open>courses\<close>, \<^verbatim>\<open>user_courses\<close> and the
  users untouched, keeps the number and order of the \<^verbatim>\<open>profiles\<close> rows, leaves every row
  of another user as it was, and changes at most the three counters of a row of \<open>u\<close>.
\<close>

theorem update_profile_stats_frame:
  "auth_users (update_profile_stats u db) = auth_users db \<and>
   courses (update_profile_stats u db) = courses db \<and>
   user_courses (update_profile_stats u db) = user_courses db \<and>
   list_all2
     (\<lambda>p p'. (p_user_id p \<noteq> u \<longrightarrow> p' = p) \<and>
              p' = p\<lparr>p_completed := p_completed p', p_enrolled := p_enrolled p',
                     p_uploads := p_uploads p'\<rparr>)
     (profiles db) (profiles (update_profile_stats u db))"
  by (simp add: recompute_profiles list.rel_map list.rel_refl)

theorem update_profile_stats_frame_witness:
  "p_user_id (profiles stale_db ! 1) \<noteq> ''u1'' \<and>
   profiles (update_profile_stats ''u1'' stale_db) ! 1 = profiles stale_db ! 1 \<and>
   profiles (update_profile_stats ''u1'' stale_db) ! 0 =
     (profiles stale_db ! 0)\<lparr>p_completed := Some 0, p_enrolled := Some 1, p_uploads := Some 1\<rparr>"
proof -
  have h: "p_user_id (profiles stale_db ! 1) \<noteq> ''u1''"
    by (simp add: example_defs)
  have n: "(1::nat) < length (profiles stale_db)"
    by (simp add: example_defs)
  from update_profile_stats_frame[of "''u1''" stale_db]
  have "list_all2
     (\<lambda>p p'. (p_user_id p \<noteq> ''u1'' \<longrightarrow> p' = p) \<and>
              p' = p\<lparr>p_completed := p_completed p', p_enrolled := p_enrolled p',
                     p_uploads := p_uploads p'\<rparr>)
     (profiles stale_db) (profiles (update_profile_stats ''u1'' stale_db))" by blast
  from list_all2_nthD[OF this n] h
  have 1: "profiles (update_profile_stats ''u1'' stale_db) ! 1 = profiles stale_db ! 1" by blast
  have 0: "profiles (update_profile_stats ''u1'' stale_db) ! 0 =
     (profiles stale_db ! 0)\<lparr>p_completed := Some 0, p_enrolled := Some 1, p_uploads := Some 1\<rparr>"
    by (simp add: example_defs update_profile_stats_def completed_count_def enrolled_count_def
          uploads_count_def)
  from h 1 0 show ?thesis by blast
qed

section \<open>Statements as row changes followed by recomputations\<close>

lemma fold_triggers_uc_new:
  "tg = INSERT \<or> tg = UPDATE \<Longrightarrow>
   fold (\<lambda>t. t) (map (\<lambda>old. trigger_update_profile_stats tg (Some (st old)) (ol old)) rows) db =
   fold update_profile_stats (map (\<lambda>old. uc_user_id (st old)) rows) db"
  by (induction rows arbitrary: db)
     (auto simp: trigger_update_profile_stats_def perform_update_profile_stats_def)

lemma fold_triggers_uc_old:
  "fold (\<lambda>t. t) (map (\<lambda>old. trigger_update_profile_stats DELETE (nw old) (Some old)) rows) db =
   fold update_profile_stats (map uc_user_id rows) db"
  by (induction rows arbitrary: db)
     (auto simp: trigger_update_profile_stats_def perform_update_profile_stats_def)

lemma fold_triggers_c_new:
  "tg = INSERT \<or> tg = UPDATE \<Longrightarrow>
   fold (\<lambda>t. t) (map (\<lambda>old. trigger_update_upload_stats tg (Some (st old)) (ol old)) rows) db =
   fold update_profile_stats (map (\<lambda>old. c_uploader_id (st old)) rows) db"
  by (induction rows arbitrary: db)
     (auto simp: trigger_update_upload_stats_def perform_update_profile_stats_def)

lemma fold_triggers_c_old:
  "fold (\<lambda>t. t) (map (\<lambda>old. trigger_update_upload_stats DELETE (nw old) (Some old)) rows) db =
   fold update_profile_stats (map c_uploader_id rows) db"
  by (induction rows arbitrary: db)
     (auto simp: trigger_update_upload_stats_def perform_update_profile_stats_def)

lemma exec_cases:
  "exec s db =
     (case constraint_violation (changed_rows s db) of
        Some e \<Rightarrow> Inl e
      | None \<Rightarrow> Inr (fold update_profile_stats (recomputed_users s db) (changed_rows s db)))"
proof (cases s)
  case (InsertCourse c)
  then show ?thesis
    by (simp add: insert_course_def after_rows_def trigger_update_upload_stats_def perform_update_profile_stats_def split: option.split)
next
  case (UpdateCourses wh st)
  then show ?thesis
    by (simp add: update_courses_def after_rows_def fold_triggers_c_new split: option.split)
next
  case (DeleteCourses wh)
  then show ?thesis
    by (simp add: delete_courses_def after_rows_def fold_triggers_c_old split: option.split)
next
  case (InsertUserCourse uc)
  then show ?thesis
    by (simp add: insert_user_course_def after_rows_def trigger_update_profile_stats_def perform_update_profile_stats_def split: option.split)
next
  case (UpdateUserCourses wh st)
  then show ?thesis
    by (simp add: update_user_courses_def after_rows_def fold_triggers_uc_new split: option.split)
next
  case (DeleteUserCourses wh)
  then show ?thesis
    by (simp add: delete_user_courses_def after_rows_def fold_triggers_uc_old split: option.split)
qed (simp_all add: insert_profile_def update_profiles_def delete_profiles_def after_rows_def split: option.split)

lemma fold_recompute_tables [simp]:
  "auth_users (fold update_profile_stats us db) = auth_users db"
  "courses (fold update_profile_stats us db) = courses db"
  "user_courses (fold update_profile_stats us db) = user_courses db"
  by (induction us arbitrary: db) simp_all

lemma fold_recompute_preserves:
  "stats_consistent U db \<Longrightarrow> stats_consistent U (fold update_profile_stats us db)"
  by (induction us arbitrary: db) (simp_all add: recompute_preserves)

lemma fold_recompute_establishes:
  "U \<in> set us \<Longrightarrow> stats_consistent U (fold update_profile_stats us db)"
proof (induction us arbitrary: db)
  case Nil
  then show ?case by simp
next
  case (Cons v vs)
  show ?case
  proof (cases "v = U")
    case True
    then show ?thesis by (simp add: recompute_establishes fold_recompute_preserves)
  next
    case False
    with Cons show ?thesis by simp
  qed
qed

text \<open>
  Claim C2. Every accepted \<^verbatim>\<open>INSERT\<close> or \<^verbatim>\<open>UPDATE\<close> on \<^verbatim>\<open>user_courses\<close> is the row
  change followed by one call of \<^verbatim>\<open>update_profile_stats\<close> for each row it inserted or
  updated, with the \<^verbatim>\<open>user_id\<close> of the new row; every accepted \<^verbatim>\<open>DELETE\<close> is the row
  change followed by one call for each row it deleted, with the \<^verbatim>\<open>user_id\<close> of the old
  row; a rejected statement calls nothing. The statements on \<^verbatim>\<open>courses\<close> do the same
  with \<^verbatim>\<open>uploader_id\<close>. The trigger functions themselves call
  \<^verbatim>\<open>update_profile_stats\<close> with the owner of \<^verbatim>\<open>NEW\<close> on \<^verbatim>\<open>INSERT\<close> and \<^verbatim>\<open>UPDATE\<close> and
  with the owner of \<^verbatim>\<open>OLD\<close> on \<^verbatim>\<open>DELETE\<close>.
\<close>

theorem row_triggers_call_update_profile_stats:
  "exec (InsertUserCourse uc) db =
     (case constraint_violation (db\<lparr>user_courses := user_courses db @ [uc]\<rparr>) of
        Some e \<Rightarrow> Inl e
      | None \<Rightarrow>
          Inr (update_profile_stats (uc_user_id uc)
                 (db\<lparr>user_courses := user_courses db @ [uc]\<rparr>))) \<and>
   exec (UpdateUserCourses wh st) db =
     (case constraint_violation
             (db\<lparr>user_courses := map (\<lambda>r. if wh r then st r else r) (user_courses db)\<rparr>) of
        Some e \<Rightarrow> Inl e
      | None \<Rightarrow>
          Inr (fold update_profile_stats
                 (map (\<lambda>old. uc_user_id (st old)) (filter wh (user_courses db)))
                 (db\<lparr>user_courses :=
                       map (\<lambda>r. if wh r then st r else r) (user_courses db)\<rparr>))) \<and>
   exec (DeleteUserCourses wh) db =
     (case constraint_violation
             (db\<lparr>user_courses := filter (\<lambda>r. \<not> wh r) (user_courses db)\<rparr>) of
        Some e \<Rightarrow> Inl e
      | None \<Rightarrow>
          Inr (fold update_profile_stats
                 (map (\<lambda>old. uc_user_id old) (filter wh (user_courses db)))
                 (db\<lparr>user_courses := filter (\<lambda>r. \<not> wh r) (user_courses db)\<rparr>))) \<and>
   exec (InsertCourse c) db =
     (case constraint_violation (db\<lparr>courses := courses db @ [c]\<rparr>) of
        Some e \<Rightarrow> Inl e
      | None \<Rightarrow>
          Inr (update_profile_stats (c_uploader_id c) (db\<lparr>courses := courses db @ [c]\<rparr>))) \<and>
   exec (UpdateCourses whc stc) db =
     (case constraint_violation
             (db\<lparr>courses := map (\<lambda>r. if whc r then stc r else r) (courses db)\<rparr>) of
        Some e \<Rightarrow> Inl e
      | None \<Rightarrow>
          Inr (fold update_profile_stats
                 (map (\<lambda>old. c_uploader_id (stc old)) (filter whc (courses db)))
                 (db\<lparr>courses := map (\<lambda>r. if whc r then stc r else r) (courses db)\<rparr>))) \<and>
   exec (DeleteCourses whc) db =
     (case constraint_violation (db\<lparr>courses := filter (\<lambda>r. \<not> whc r) (courses db)\<rparr>) of
        Some e \<Rightarrow> Inl e
      | None \<Rightarrow>
          Inr (fold update_profile_stats
                 (map (\<lambda>old. c_uploader_id old) (filter whc (courses db)))
                 (db\<lparr>courses := filter (\<lambda>r. \<not> whc r) (courses db)\<rparr>))) \<and>
   trigger_update_profile_stats INSERT (Some new_uc) old_uc db =
     update_profile_stats (uc_user_id new_uc) db \<and>
   trigger_update_profile_stats UPDATE (Some new_uc) old_uc db =
     update_profile_stats (uc_user_id new_uc) db \<and>
   trigger_update_profile_stats DELETE any_uc (Some old_uc') db =
     update_profile_stats (uc_user_id old_uc') db \<and>
   trigger_update_upload_stats INSERT (Some new_c) old_c db =
     update_profile_stats (c_uploader_id new_c) db \<and>
   trigger_update_upload_stats UPDATE (Some new_c) old_c db =
     update_profile_stats (c_uploader_id new_c) db \<and>
   trigger_update_upload_stats DELETE any_c (Some old_c') db =
     update_profile_stats (c_uploader_id old_c') db"
proof -
  have inserts:
    "exec (InsertUserCourse uc) db =
     (case constraint_violation (db\<lparr>user_courses := user_courses db @ [uc]\<rparr>) of
        Some e \<Rightarrow> Inl e
      | None \<Rightarrow>
          Inr (update_profile_stats (uc_user_id uc)
                 (db\<lparr>user_courses := user_courses db @ [uc]\<rparr>)))"
    "exec (InsertCourse c) db =
     (case constraint_violation (db\<lparr>courses := courses db @ [c]\<rparr>) of
        Some e \<Rightarrow> Inl e
      | None \<Rightarrow>
          Inr (update_profile_stats (c_uploader_id c) (db\<lparr>courses := courses db @ [c]\<rparr>)))"
    by (simp_all add: insert_user_course_def insert_course_def after_rows_def
          trigger_update_profile_stats_def trigger_update_upload_stats_def
          perform_update_profile_stats_def split: option.split)
  have updates:
    "exec (UpdateUserCourses wh st) db =
     (case constraint_violation
             (db\<lparr>user_courses := map (\<lambda>r. if wh r then st r else r) (user_courses db)\<rparr>) of
        Some e \<Rightarrow> Inl e
      | None \<Rightarrow>
          Inr (fold update_profile_stats
                 (map (\<lambda>old. uc_user_id (st old)) (filter wh (user_courses db)))
                 (db\<lparr>user_courses :=
                       map (\<lambda>r. if wh r then st r else r) (user_courses db)\<rparr>)))"
    "exec (UpdateCourses whc stc) db =
     (case constraint_violation
             (db\<lparr>courses := map (\<lambda>r. if whc r then stc r else r) (courses db)\<rparr>) of
        Some e \<Rightarrow> Inl e
      | None \<Rightarrow>
          Inr (fold update_profile_stats
                 (map (\<lambda>old. c_uploader_id (stc old)) (filter whc (courses db)))
                 (db\<lparr>courses := map (\<lambda>r. if whc r then stc r else r) (courses db)\<rparr>)))"
    by (simp_all add: update_user_courses_def update_courses_def after_rows_def
          fold_triggers_uc_new fold_triggers_c_new split: option.split)
  have deletes:
    "exec (DeleteUserCourses wh) db =
     (case constraint_violation
             (db\<lparr>user_courses := filter (\<lambda>r. \<not> wh r) (user_courses db)\<rparr>) of
        Some e \<Rightarrow> Inl e
      | None \<Rightarrow>
          Inr (fold update_profile_stats
                 (map (\<lambda>old. uc_user_id old) (filter wh (user_courses db)))
                 (db\<lparr>user_courses := filter (\<lambda>r. \<not> wh r) (user_courses db)\<rparr>)))"
    "exec (DeleteCourses whc) db =
     (case constraint_violation (db\<lparr>courses := filter (\<lambda>r. \<not> whc r) (courses db)\<rparr>) of
        Some e \<Rightarrow> Inl e
      | None \<Rightarrow>
          Inr (fold update_profile_stats
                 (map (\<lambda>old. c_uploader_id old) (filter whc (courses db)))
                 (db\<lparr>courses := filter (\<lambda>r. \<not> whc r) (courses db)\<rparr>)))"
    by (simp_all add: delete_user_courses_def delete_courses_def after_rows_def
          fold_triggers_uc_old fold_triggers_c_old split: option.split)
  have triggers:
    "trigger_update_profile_stats INSERT (Some new_uc) old_uc db =
       update_profile_stats (uc_user_id new_uc) db"
    "trigger_update_profile_stats UPDATE (Some new_uc) old_uc db =
       update_profile_stats (uc_user_id new_uc) db"
    "trigger_update_profile_stats DELETE any_uc (Some old_uc') db =
       update_profile_stats (uc_user_id old_uc') db"
    "trigger_update_upload_stats INSERT (Some new_c) old_c db =
       update_profile_stats (c_uploader_id new_c) db"
    "trigger_update_upload_stats UPDATE (Some new_c) old_c db =
       update_profile_stats (c_uploader_id new_c) db"
    "trigger_update_upload_stats DELETE any_c (Some old_c') db =
       update_profile_stats (c_uploader_id old_c') db"
    by (simp_all add: trigger_update_profile_stats_def trigger_update_upload_stats_def
          perform_update_profile_stats_def)
  from inserts updates deletes triggers show ?thesis by blast
qed

theorem row_triggers_call_update_profile_stats_witness:
  "exec enroll_c2 library_db =
     Inr (update_profile_stats ''u1''
            (library_db\<lparr>user_courses :=
                          user_courses library_db @ [user_course_row ''e2'' ''u1'' ''c2'']\<rparr>)) \<and>
   map p_enrolled (profiles (commit library_db (exec enroll_c2 library_db))) =
     [Some 2, Some 0] \<and>
   exec reassign_enrollment library_db =
     Inr (update_profile_stats ''u2''
            (library_db\<lparr>user_courses := [user_course_row ''e1'' ''u2'' ''c1'']\<rparr>)) \<and>
   exec unenroll_e1 library_db =
     Inr (update_profile_stats ''u1'' (library_db\<lparr>user_courses := []\<rparr>)) \<and>
   map p_enrolled (profiles (commit library_db (exec unenroll_e1 library_db))) =
     [Some 0, Some 0]"
proof -
  let ?e2 = "user_course_row ''e2'' ''u1'' ''c2''"
  note t = row_triggers_call_update_profile_stats
  have "exec (InsertUserCourse ?e2) library_db =
     (case constraint_violation (library_db\<lparr>user_courses := user_courses library_db @ [?e2]\<rparr>) of
        Some e \<Rightarrow> Inl e
      | None \<Rightarrow>
          Inr (update_profile_stats (uc_user_id ?e2)
                 (library_db\<lparr>user_courses := user_courses library_db @ [?e2]\<rparr>)))"
    by (rule t[THEN conjunct1])
  moreover have "constraint_violation
      (library_db\<lparr>user_courses := user_courses library_db @ [?e2]\<rparr>) = None"
    by (simp add: example_defs statement_defs)
  moreover have "uc_user_id ?e2 = ''u1''" by (simp add: example_defs)
  ultimately have 1: "exec enroll_c2 library_db =
     Inr (update_profile_stats ''u1''
            (library_db\<lparr>user_courses := user_courses library_db @ [?e2]\<rparr>))"
    by (simp add: enroll_c2_def)
  have 2: "map p_enrolled (profiles (commit library_db (exec enroll_c2 library_db))) =
     [Some 2, Some 0]"
    unfolding 1 by (simp add: example_defs statement_defs)
  have "exec (UpdateUserCourses (user_course_id_is ''e1'') (set_user_id ''u2'')) library_db =
     (case constraint_violation
             (library_db\<lparr>user_courses :=
                map (\<lambda>r. if user_course_id_is ''e1'' r then set_user_id ''u2'' r else r)
                    (user_courses library_db)\<rparr>) of
        Some e \<Rightarrow> Inl e
      | None \<Rightarrow>
          Inr (fold update_profile_stats
                 (map (\<lambda>old. uc_user_id (set_user_id ''u2'' old))
                      (filter (user_course_id_is ''e1'') (user_courses library_db)))
                 (library_db\<lparr>user_courses :=
                    map (\<lambda>r. if user_course_id_is ''e1'' r then set_user_id ''u2'' r else r)
                        (user_courses library_db)\<rparr>)))"
    by (rule t[THEN conjunct2, THEN conjunct1])
  moreover have "map (\<lambda>r. if user_course_id_is ''e1'' r then set_user_id ''u2'' r else r)
                        (user_courses library_db) = [user_course_row ''e1'' ''u2'' ''c1'']"
    and "map (\<lambda>old. uc_user_id (set_user_id ''u2'' old))
                      (filter (user_course_id_is ''e1'') (user_courses library_db)) = [''u2'']"
    by (simp_all add: example_defs)
  moreover have "constraint_violation
      (library_db\<lparr>user_courses := [user_course_row ''e1'' ''u2'' ''c1'']\<rparr>) = None"
    by (simp add: example_defs statement_defs)
  ultimately have 3: "exec reassign_enrollment library_db =
     Inr (update_profile_stats ''u2''
            (library_db\<lparr>user_courses := [user_course_row ''e1'' ''u2'' ''c1'']\<rparr>))"
    by (simp add: reassign_enrollment_def)
  have "exec (DeleteUserCourses (user_course_id_is ''e1'')) library_db =
     (case constraint_violation
             (library_db\<lparr>user_courses :=
                filter (\<lambda>r. \<not> user_course_id_is ''e1'' r) (user_courses library_db)\<rparr>) of
        Some e \<Rightarrow> Inl e
      | None \<Rightarrow>
          Inr (fold update_profile_stats
                 (map (\<lambda>old. uc_user_id old)
                      (filter (user_course_id_is ''e1'') (user_courses library_db)))
                 (library_db\<lparr>user_courses :=
                    filter (\<lambda>r. \<not> user_course_id_is ''e1'' r) (user_courses library_db)\<rparr>)))"
    by (rule t[THEN conjunct2, THEN conjunct2, THEN conjunct1])
  moreover have "filter (\<lambda>r. \<not> user_course_id_is ''e1'' r) (user_courses library_db) = []"
    and "map (\<lambda>old. uc_user_id old)
           (filter (user_course_id_is ''e1'') (user_courses library_db)) = [''u1'']"
    by (simp_all add: example_defs)
  moreover have "constraint_violation (library_db\<lparr>user_courses := []\<rparr>) = None"
    by (simp add: example_defs statement_defs)
  ultimately have 4: "exec unenroll_e1 library_db =
     Inr (update_profile_stats ''u1'' (library_db\<lparr>user_courses := []\<rparr>))"
    by (simp add: unenroll_e1_def)
  have 5: "map p_enrolled (profiles (commit library_db (exec unenroll_e1 library_db))) =
     [Some 0, Some 0]"
    unfolding 4 by (simp add: example_defs statement_defs)
  from 1 2 3 4 5 show ?thesis by blast
qed

section \<open>The counters follow the rows\<close>

lemma filter_map_unchanged:
  "(\<And>x. x \<in> set xs \<Longrightarrow> (Q (f x) \<longleftrightarrow> Q x) \<and> (Q x \<longrightarrow> f x = x)) \<Longrightarrow>
   filter Q (map f xs) = filter Q xs"
  by (induction xs) auto

lemma filter_filter_unchanged:
  "(\<And>x. x \<in> set xs \<Longrightarrow> Q x \<Longrightarrow> \<not> wh x) \<Longrightarrow> filter Q (filter (\<lambda>x. \<not> wh x) xs) = filter Q xs"
  by (induction xs) auto

lemma changed_rows_profiles:
  "targets_enrollments_or_courses s \<Longrightarrow> profiles (changed_rows s db) = profiles db"
  by (cases s) simp_all

lemma changed_rows_user_courses_of:
  assumes "keeps_owner_in db s" and "U \<notin> set (recomputed_users s db)"
  shows "filter (\<lambda>uc. uc_user_id uc = U \<and> R uc) (user_courses (changed_rows s db)) =
         filter (\<lambda>uc. uc_user_id uc = U \<and> R uc) (user_courses db)"
proof (cases s)
  case (UpdateUserCourses wh st)
  with assms have "\<And>x. x \<in> set (user_courses db) \<Longrightarrow> wh x \<Longrightarrow> uc_user_id (st x) \<noteq> U \<and> uc_user_id x \<noteq> U"
    by auto
  then have "filter (\<lambda>uc. uc_user_id uc = U \<and> R uc) (map (\<lambda>uc. if wh uc then st uc else uc) (user_courses db)) =
         filter (\<lambda>uc. uc_user_id uc = U \<and> R uc) (user_courses db)"
    by (intro filter_map_unchanged) auto
  with UpdateUserCourses show ?thesis by simp
next
  case (DeleteUserCourses wh)
  with assms have "\<And>x. x \<in> set (user_courses db) \<Longrightarrow> wh x \<Longrightarrow> uc_user_id x \<noteq> U"
    by auto
  then have "filter (\<lambda>uc. uc_user_id uc = U \<and> R uc) (filter (\<lambda>uc. \<not> wh uc) (user_courses db)) =
         filter (\<lambda>uc. uc_user_id uc = U \<and> R uc) (user_courses db)"
    by (intro filter_filter_unchanged) auto
  with DeleteUserCourses show ?thesis by simp
next
  case (InsertUserCourse uc)
  with assms show ?thesis by simp
qed simp_all

lemma changed_rows_courses_of:
  assumes "keeps_owner_in db s" and "U \<notin> set (recomputed_users s db)"
  shows "filter (\<lambda>c. c_uploader_id c = U) (courses (changed_rows s db)) =
         filter (\<lambda>c. c_uploader_id c = U) (courses db)"
proof (cases s)
  case (UpdateCourses wh st)
  with assms have "\<And>x. x \<in> set (courses db) \<Longrightarrow> wh x \<Longrightarrow> c_uploader_id (st x) \<noteq> U \<and> c_uploader_id x \<noteq> U"
    by auto
  then have "filter (\<lambda>c. c_uploader_id c = U) (map (\<lambda>c. if wh c then st c else c) (courses db)) =
         filter (\<lambda>c. c_uploader_id c = U) (courses db)"
    by (intro filter_map_unchanged) auto
  with UpdateCourses show ?thesis by simp
next
  case (DeleteCourses wh)
  with assms have "\<And>x. x \<in> set (courses db) \<Longrightarrow> wh x \<Longrightarrow> c_uploader_id x \<noteq> U"
    by auto
  then have "filter (\<lambda>c. c_uploader_id c = U) (filter (\<lambda>c. \<not> wh c) (courses db)) =
         filter (\<lambda>c. c_uploader_id c = U) (courses db)"
    by (intro filter_filter_unchanged) auto
  with DeleteCourses show ?thesis by simp
next
  case (InsertCourse c)
  with assms show ?thesis by simp
qed simp_all

lemma changed_rows_preserves:
  assumes "targets_enrollments_or_courses s" and "keeps_owner_in db s"
    and "U \<notin> set (recomputed_users s db)" and "stats_consistent U db"
  shows "stats_consistent U (changed_rows s db)"
proof -
  have "filter (\<lambda>uc. uc_user_id uc = U \<and> True) (user_courses (changed_rows s db)) =
        filter (\<lambda>uc. uc_user_id uc = U \<and> True) (user_courses db)"
    using assms(2,3) by (rule changed_rows_user_courses_of)
  then have e: "filter (\<lambda>uc. uc_user_id uc = U) (user_courses (changed_rows s db)) =
        filter (\<lambda>uc. uc_user_id uc = U) (user_courses db)" by simp
  have c: "filter (\<lambda>uc. uc_user_id uc = U \<and> uc_completed uc = Some True) (user_courses (changed_rows s db)) =
        filter (\<lambda>uc. uc_user_id uc = U \<and> uc_completed uc = Some True) (user_courses db)"
    using assms(2,3) by (rule changed_rows_user_courses_of)
  have u: "filter (\<lambda>c. c_uploader_id c = U) (courses (changed_rows s db)) =
         filter (\<lambda>c. c_uploader_id c = U) (courses db)"
    using assms(2,3) by (rule changed_rows_courses_of)
  show ?thesis
    using assms(4) unfolding stats_consistent_def e c u changed_rows_profiles[OF assms(1)] .
qed

lemma keeps_owner_in: "keeps_owner s \<Longrightarrow> keeps_owner_in db s"
  by (cases s) simp_all

lemma exec_preserves:
  assumes "targets_enrollments_or_courses s" and "keeps_owner_in db s"
    and "stats_consistent U db"
  shows "stats_consistent U (commit db (exec s db))"
proof (cases "constraint_violation (changed_rows s db)")
  case (Some e)
  with assms(3) show ?thesis by (simp add: exec_cases commit_def)
next
  case None
  show ?thesis
  proof (cases "U \<in> set (recomputed_users s db)")
    case True
    with None show ?thesis by (simp add: exec_cases commit_def fold_recompute_establishes)
  next
    case False
    with assms have "stats_consistent U (changed_rows s db)" by (simp add: changed_rows_preserves)
    with None show ?thesis by (simp add: exec_cases commit_def fold_recompute_preserves)
  qed
qed

lemma exec_establishes:
  assumes "exec s db = Inr db'" and "U \<in> set (recomputed_users s db)"
  shows "stats_consistent U db'"
  using assms by (auto simp: exec_cases fold_recompute_establishes split: option.splits)

text \<open>Under the row-level policies a statement is refused or runs on the rows its
  \<^verbatim>\<open>USING\<close> predicate shows, and then no row it updates changes its owner: the policies
  of \<^verbatim>\<open>courses\<close> and \<^verbatim>\<open>user_courses\<close> require \<^verbatim>\<open>auth.uid()\<close> as owner of the old
  and of the new row. So every request on these tables keeps the counters of every user
  in step with the rows.\<close>

lemma exec_as_cases:
  "exec_as auth_uid s db = Inl RowSecurityViolation \<or>
   exec_as auth_uid s db = exec (visible_to auth_uid s) db \<and>
   keeps_owner_in db (visible_to auth_uid s)"
  by (cases s) (auto simp: owns_course_def owns_user_course_def)

lemma targets_visible:
  "targets_enrollments_or_courses s \<Longrightarrow> targets_enrollments_or_courses (visible_to auth_uid s)"
  by (cases s) simp_all

lemma exec_as_preserves:
  assumes "targets_enrollments_or_courses s" and "stats_consistent U db"
  shows "stats_consistent U (commit db (exec_as auth_uid s db))"
proof -
  from exec_as_cases[of auth_uid s db] show ?thesis
  proof
    assume "exec_as auth_uid s db = Inl RowSecurityViolation"
    with assms(2) show ?thesis by (simp add: commit_def)
  next
    assume "exec_as auth_uid s db = exec (visible_to auth_uid s) db \<and>
            keeps_owner_in db (visible_to auth_uid s)"
    with assms show ?thesis by (simp add: exec_preserves targets_visible)
  qed
qed

text \<open>
  Claim C1, as amended. Take any sequence of statements on \<^verbatim>\<open>user_courses\<close> and
  \<^verbatim>\<open>courses\<close> in which no \<^verbatim>\<open>UPDATE\<close> changes the \<^verbatim>\<open>user_id\<close> or \<^verbatim>\<open>uploader_id\<close> of a
  row. If the counters of \<open>U\<close> equal their counts before the sequence, or some statement of
  the sequence was accepted and changed a row of \<open>U\<close>, then after the sequence every
  profile row of \<open>U\<close> has \<^verbatim>\<open>enrolled\<close>, \<^verbatim>\<open>completed\<close> and \<^verbatim>\<open>uploads\<close> equal to the number
  of enrollments, completed enrollments and uploaded courses of \<open>U\<close>.
\<close>

theorem counters_track_rows:
  assumes "\<forall>s \<in> set ss. targets_enrollments_or_courses s \<and> keeps_owner s"
    and "stats_consistent U db \<or> touched U ss db"
  shows "stats_consistent U (run_statements ss db)"
  using assms
proof (induction ss arbitrary: db)
  case Nil
  then show ?case by simp
next
  case (Cons s ss)
  let ?db1 = "commit db (exec s db)"
  from Cons.prems(1) have s: "targets_enrollments_or_courses s" "keeps_owner s"
    and ss: "\<forall>s \<in> set ss. targets_enrollments_or_courses s \<and> keeps_owner s" by simp_all
  have "stats_consistent U ?db1 \<or> touched U ss ?db1"
  proof (cases "stats_consistent U db")
    case True
    with s show ?thesis by (simp add: exec_preserves keeps_owner_in)
  next
    case False
    with Cons.prems(2) have "touched U (s # ss) db" by simp
    then show ?thesis
      by (auto simp: commit_def accepted_def split: sum.splits dest: exec_establishes)
  qed
  with ss show ?case by (simp add: Cons.IH)
qed

theorem counters_track_rows_witness:
  "touched ''u1'' enroll_and_complete stale_db \<and>
   \<not> stats_consistent ''u1'' stale_db \<and>
   stats_consistent ''u1'' (run_statements enroll_and_complete stale_db) \<and>
   map counters (profiles (run_statements enroll_and_complete stale_db)) =
     [(Some 1, Some 2, Some 1), (Some 0, Some 0, Some 1)]"
proof -
  have h1: "\<forall>s \<in> set enroll_and_complete. targets_enrollments_or_courses s \<and> keeps_owner s"
    by (simp add: enroll_and_complete_def example_defs)
  have h2: "touched ''u1'' enroll_and_complete stale_db"
    by (simp add: enroll_and_complete_def example_defs statement_defs)
  have c: "stats_consistent ''u1'' (run_statements enroll_and_complete stale_db)"
    using h1 disjI2[OF h2] by (rule counters_track_rows)
  have n: "\<not> stats_consistent ''u1'' stale_db"
    by (simp add: example_defs stats_consistent_def)
  have v: "map counters (profiles (run_statements enroll_and_complete stale_db)) =
     [(Some 1, Some 2, Some 1), (Some 0, Some 0, Some 1)]"
    by (simp add: enroll_and_complete_def example_defs statement_defs counters_def)
  from h2 n c v show ?thesis by blast
qed

text \<open>
  The claim as stated fails: in \<open>library_db\<close> the counters of \<open>u1\<close> agree with the rows;
  the update that sets \<^verbatim>\<open>user_id\<close> of the enrollment \<open>e1\<close> of \<open>u1\<close> to \<open>u2\<close> is
  accepted, its trigger recomputes \<open>u2\<close> only, and \<open>u1\<close> keeps \<^verbatim>\<open>enrolled = 1\<close> with no
  enrollment left.
\<close>

theorem reassigned_enrollment_leaves_stale_counters:
  "stats_consistent ''u1'' library_db \<and>
   accepted (exec reassign_enrollment library_db) \<and>
   \<not> stats_consistent ''u1'' (run_statements [reassign_enrollment] library_db) \<and>
   map p_enrolled (profiles (run_statements [reassign_enrollment] library_db)) =
     [Some 1, Some 1] \<and>
   map uc_user_id (user_courses (run_statements [reassign_enrollment] library_db)) = [''u2'']"
  by (simp add: reassign_enrollment_def example_defs statement_defs stats_consistent_def)

section \<open>The sign of the counters\<close>

lemma leaves_counters_visible: "leaves_counters s \<Longrightarrow> leaves_counters (visible_to auth_uid s)"
  by (cases s) simp_all

lemma recompute_nonneg: "counters_nonneg db \<Longrightarrow> counters_nonneg (update_profile_stats u db)"
  unfolding counters_nonneg_def recompute_profiles ball_map_rows
  by (simp add: counter_nonneg_def completed_count_def enrolled_count_def uploads_count_def)

lemma fold_recompute_nonneg: "counters_nonneg db \<Longrightarrow> counters_nonneg (fold update_profile_stats us db)"
  by (induction us arbitrary: db) (simp_all add: recompute_nonneg)

lemma changed_rows_nonneg:
  "leaves_counters s \<Longrightarrow> counters_nonneg db \<Longrightarrow> counters_nonneg (changed_rows s db)"
  by (cases s) (auto simp: counters_nonneg_def counter_nonneg_def counters_def)

lemma exec_nonneg:
  "leaves_counters s \<Longrightarrow> counters_nonneg db \<Longrightarrow> counters_nonneg (commit db (exec s db))"
  by (simp add: exec_cases commit_def fold_recompute_nonneg changed_rows_nonneg split: option.split)

lemma exec_as_nonneg:
  assumes "leaves_counters s" and "counters_nonneg db"
  shows "counters_nonneg (commit db (exec_as auth_uid s db))"
proof -
  from exec_as_cases[of auth_uid s db] show ?thesis
  proof
    assume "exec_as auth_uid s db = Inl RowSecurityViolation"
    with assms(2) show ?thesis by (simp add: commit_def)
  next
    assume "exec_as auth_uid s db = exec (visible_to auth_uid s) db \<and>
            keeps_owner_in db (visible_to auth_uid s)"
    with assms show ?thesis by (simp add: exec_nonneg leaves_counters_visible)
  qed
qed

lemma handle_new_user_rows:
  "handle_new_user new_id full_name g now db = Inr db' \<Longrightarrow>
   db' = db\<lparr>profiles := profiles db @
       [\<lparr>p_id = g, p_user_id = new_id, p_full_name = full_name,
        p_avatar_url = None, p_role = ''user'', p_created_at = now, p_updated_at = now,
        p_completed = Some 0, p_enrolled = Some 0, p_uploads = Some 0\<rparr>]\<rparr>"
  by (simp add: handle_new_user_def insert_profile_def after_rows_def split: option.splits)

lemma sign_up_nonneg:
  assumes "counters_nonneg db"
  shows "counters_nonneg (commit db (insert_auth_user new_id full_name g now db))"
proof (cases "insert_auth_user new_id full_name g now db")
  case (Inl e)
  with assms show ?thesis by (simp add: commit_def)
next
  case (Inr db')
  then have "handle_new_user new_id full_name g now (db\<lparr>auth_users := auth_users db @ [new_id]\<rparr>) = Inr db'"
    by (simp add: insert_auth_user_def Let_def split: option.splits)
  from handle_new_user_rows[OF this] assms Inr show ?thesis
    by (simp add: commit_def counters_nonneg_def counter_nonneg_def)
qed

lemma serve_nonneg:
  "request_leaves_counters r \<Longrightarrow> counters_nonneg db \<Longrightarrow> counters_nonneg (commit db (serve r db))"
  by (cases r) (simp_all add: sign_up_nonneg exec_as_nonneg)

lemma run_requests_nonneg:
  "\<forall>r \<in> set rs. request_leaves_counters r \<Longrightarrow> counters_nonneg db \<Longrightarrow>
   counters_nonneg (run_requests rs db)"
  by (induction rs arbitrary: db) (simp_all add: serve_nonneg)

lemma empty_nonneg: "counters_nonneg empty_database"
  by (simp add: counters_nonneg_def empty_database_def)

text \<open>
  Claim C7, as amended. In every state reached from the empty database by sign-ups and by
  requests that do not themselves assign a counter column of \<^verbatim>\<open>profiles\<close>, each of
  \<^verbatim>\<open>completed\<close>, \<^verbatim>\<open>enrolled\<close> and \<^verbatim>\<open>uploads\<close> of every profile row is a number that is
  at least 0; and the profile row that \<^verbatim>\<open>handle_new_user\<close> creates has all three at 0.
\<close>

theorem counters_nonneg_reachable:
  assumes "\<forall>r \<in> set rs. request_leaves_counters r"
  shows "counters_nonneg (run_requests rs empty_database) \<and>
         (\<forall>new_id full_name g now db db'.
            handle_new_user new_id full_name g now db = Inr db' \<longrightarrow>
            (\<exists>p. profiles db' = profiles db @ [p] \<and> p_user_id p = new_id \<and>
                 counters p = (Some 0, Some 0, Some 0)))"
proof (intro conjI allI impI)
  from assms empty_nonneg show "counters_nonneg (run_requests rs empty_database)"
    by (rule run_requests_nonneg)
next
  fix new_id full_name g now db db'
  assume "handle_new_user new_id full_name g now db = Inr db'"
  from handle_new_user_rows[OF this]
  show "\<exists>p. profiles db' = profiles db @ [p] \<and> p_user_id p = new_id \<and>
             counters p = (Some 0, Some 0, Some 0)"
    by (simp add: counters_def)
qed

theorem counters_nonneg_reachable_witness:
  "counters_nonneg (run_requests library_requests empty_database) \<and>
   map counters (profiles (run_requests library_requests empty_database)) =
     [(Some 0, Some 1, Some 1), (Some 0, Some 0, Some 1)] \<and>
   (\<exists>p. profiles (run_requests [SignUp ''u1'' None ''p1'' ''t0''] empty_database) = [p] \<and>
        p_user_id p = ''u1'' \<and> counters p = (Some 0, Some 0, Some 0))"
proof -
  have h: "\<forall>r \<in> set library_requests. request_leaves_counters r"
    by (simp add: library_requests_def example_defs set_full_name_def counters_def)
  note t = counters_nonneg_reachable[OF h]
  from t have 1: "counters_nonneg (run_requests library_requests empty_database)" by blast
  have 2: "map counters (profiles (run_requests library_requests empty_database)) =
     [(Some 0, Some 1, Some 1), (Some 0, Some 0, Some 1)]"
    by (simp add: library_requests_def example_defs statement_defs request_defs
          set_full_name_def counters_def)
  let ?db = "empty_database\<lparr>auth_users := [''u1'']\<rparr>"
  have e: "handle_new_user ''u1'' None ''p1'' ''t0'' ?db =
           Inr (run_requests [SignUp ''u1'' None ''p1'' ''t0''] empty_database)"
    by (simp add: statement_defs request_defs)
  from t e have "\<exists>p. profiles (run_requests [SignUp ''u1'' None ''p1'' ''t0''] empty_database) =
                     profiles ?db @ [p] \<and>
                     p_user_id p = ''u1'' \<and> counters p = (Some 0, Some 0, Some 0)"
    by blast
  then have 3: "\<exists>p. profiles (run_requests [SignUp ''u1'' None ''p1'' ''t0''] empty_database) = [p] \<and>
        p_user_id p = ''u1'' \<and> counters p = (Some 0, Some 0, Some 0)"
    by (simp add: empty_database_def)
  from 1 2 3 show ?thesis by blast
qed

text \<open>
  The claim as stated fails: the schema puts no \<^verbatim>\<open>CHECK\<close> on the counters and the
  policy \<^verbatim>\<open>"Users can update own profile"\<close> lets the owner write any column of the own
  row, so a state with \<^verbatim>\<open>completed = -1\<close> is reached by one request after sign-up.
\<close>

theorem owner_can_store_negative_counter:
  "accepted (serve (SignUp ''u1'' None ''p1'' ''t0'') empty_database) \<and>
   map p_completed (profiles (run_requests negative_counter_requests empty_database)) =
     [Some (- 1)] \<and>
   \<not> counters_nonneg (run_requests negative_counter_requests empty_database)"
  by (simp add: negative_counter_requests_def example_defs statement_defs request_defs
        counters_nonneg_def counter_nonneg_def)

section \<open>Constraints after a statement\<close>

lemma constraint_violation_cong:
  assumes "auth_users db' = auth_users db"
    and "map p_id (profiles db') = map p_id (profiles db)"
    and "map p_user_id (profiles db') = map p_user_id (profiles db)"
    and "map p_role (profiles db') = map p_role (profiles db)"
    and "courses db' = courses db"
    and "user_courses db' = user_courses db"
  shows "constraint_violation db' = constraint_violation db"
proof -
  have u: "unique_keys db' = unique_keys db"
    using assms by (simp add: unique_keys_def)
  have "(\<forall>p \<in> set (profiles db'). p_role p \<in> set [''user'', ''premium'', ''admin'']) \<longleftrightarrow>
        (\<forall>r \<in> set (map p_role (profiles db')). r \<in> set [''user'', ''premium'', ''admin''])"
    unfolding ball_map_rows ..
  also have "\<dots> \<longleftrightarrow> (\<forall>r \<in> set (map p_role (profiles db)). r \<in> set [''user'', ''premium'', ''admin''])"
    using assms(4) by simp
  also have "\<dots> \<longleftrightarrow> (\<forall>p \<in> set (profiles db). p_role p \<in> set [''user'', ''premium'', ''admin''])"
    unfolding ball_map_rows ..
  finally have c: "check_constraints db' = check_constraints db"
    using assms(5) by (simp add: check_constraints_def)
  have "(\<forall>p \<in> set (profiles db'). p_user_id p \<in> set (auth_users db')) \<longleftrightarrow>
        (\<forall>r \<in> set (map p_user_id (profiles db')). r \<in> set (auth_users db'))"
    unfolding ball_map_rows ..
  also have "\<dots> \<longleftrightarrow> (\<forall>r \<in> set (map p_user_id (profiles db)). r \<in> set (auth_users db))"
    using assms(1,3) by simp
  also have "\<dots> \<longleftrightarrow> (\<forall>p \<in> set (profiles db). p_user_id p \<in> set (auth_users db))"
    unfolding ball_map_rows ..
  finally have f: "foreign_keys db' = foreign_keys db"
    using assms(1,3,5,6) by (simp add: foreign_keys_def)
  show ?thesis by (simp add: constraint_violation_def u c f)
qed

lemma constraint_violation_recompute [simp]:
  "constraint_violation (update_profile_stats u db) = constraint_violation db"
  by (rule constraint_violation_cong) (simp_all add: recompute_profiles comp_def if_distrib cong: if_cong)

lemma constraint_violation_None:
  "constraint_violation db = None \<longleftrightarrow> unique_keys db \<and> check_constraints db \<and> foreign_keys db"
  by (simp add: constraint_violation_def)

lemma distinct_map_same_key:
  assumes "distinct (map k xs)" and "x \<in> set xs" and "y \<in> set xs" and "k y = k x"
  shows "y = x"
proof -
  from assms(1) have "inj_on k (set xs)" by (simp add: distinct_map)
  with assms(2-4) show ?thesis by (auto dest: inj_onD)
qed

lemma distinct_map_filter_id:
  assumes "distinct (map k xs)" and "x \<in> set xs" and "wh x"
  shows "k x \<notin> set (map k (filter (\<lambda>y. \<not> wh y) xs))"
proof
  assume "k x \<in> set (map k (filter (\<lambda>y. \<not> wh y) xs))"
  then obtain y where y: "y \<in> set xs" "\<not> wh y" "k y = k x" by auto
  from assms(1) have "inj_on k (set xs)" by (simp add: distinct_map)
  with y assms(2) have "y = x" by (auto dest: inj_onD)
  with y assms(3) show False by simp
qed

text \<open>Every statement, request and sign-up keeps the constraints: a database reached from
  the empty one satisfies them.\<close>

lemma constraint_violation_fold_recompute [simp]:
  "constraint_violation (fold update_profile_stats us db) = constraint_violation db"
  by (induction us arbitrary: db) simp_all

lemma exec_keeps_constraints:
  "constraint_violation db = None \<Longrightarrow> constraint_violation (commit db (exec s db)) = None"
  by (simp add: exec_cases commit_def split: option.split)

lemma exec_as_keeps_constraints:
  assumes "constraint_violation db = None"
  shows "constraint_violation (commit db (exec_as auth_uid s db)) = None"
proof -
  from exec_as_cases[of auth_uid s db] show ?thesis
  proof
    assume "exec_as auth_uid s db = Inl RowSecurityViolation"
    with assms show ?thesis by (simp add: commit_def)
  next
    assume "exec_as auth_uid s db = exec (visible_to auth_uid s) db \<and>
            keeps_owner_in db (visible_to auth_uid s)"
    with assms show ?thesis by (simp add: exec_keeps_constraints)
  qed
qed

lemma sign_up_keeps_constraints:
  assumes "constraint_violation db = None"
  shows "constraint_violation (commit db (insert_auth_user new_id full_name g now db)) = None"
proof (cases "insert_auth_user new_id full_name g now db")
  case (Inl e)
  with assms show ?thesis by (simp add: commit_def)
next
  case (Inr db')
  then show ?thesis
    by (auto simp: insert_auth_user_def handle_new_user_def insert_profile_def after_rows_def
          Let_def commit_def split: option.splits)
qed

lemma run_requests_keep_constraints:
  "constraint_violation db = None \<Longrightarrow> constraint_violation (run_requests rs db) = None"
proof (induction rs arbitrary: db)
  case Nil
  then show ?case by simp
next
  case (Cons r rs)
  then have "constraint_violation (commit db (serve r db)) = None"
    by (cases r) (simp_all add: sign_up_keeps_constraints exec_as_keeps_constraints)
  then show ?case by (simp add: Cons.IH)
qed

lemma reachable_satisfies_constraints:
  "constraint_violation (run_requests rs empty_database) = None"
  by (rule run_requests_keep_constraints)
     (simp add: empty_database_def constraint_violation_def unique_keys_def
        check_constraints_def foreign_keys_def)

text \<open>
  Claim C8. In a database that satisfies its constraints, a \<^verbatim>\<open>DELETE\<close> on \<^verbatim>\<open>courses\<close>
  that would remove a course some \<^verbatim>\<open>user_courses\<close> row references is rejected with a
  foreign-key violation, whether it is run directly or by the uploader under the
  row-level policies, and the database stays as it was.
\<close>

theorem referenced_course_delete_rejected:
  assumes wf: "constraint_violation db = None"
    and c: "c \<in> set (courses db)" "wh c"
    and uc: "uc \<in> set (user_courses db)" "uc_course_id uc = c_id c"
  shows "exec (DeleteCourses wh) db = Inl ForeignKeyViolation \<and>
         exec_as (Some (c_uploader_id c)) (DeleteCourses wh) db = Inl ForeignKeyViolation \<and>
         commit db (exec (DeleteCourses wh) db) = db \<and>
         commit db (exec_as auth_uid (DeleteCourses (course_id_is (c_id c))) db) = db"
proof -
  have rejected: "delete_courses wh' db = Inl ForeignKeyViolation" if wh': "wh' c" for wh'
  proof -
    let ?db' = "db\<lparr>courses := filter (\<lambda>c. \<not> wh' c) (courses db)\<rparr>"
    from wf have k: "unique_keys db" and ch: "check_constraints db"
      by (simp_all add: constraint_violation_None)
    from k have k': "unique_keys ?db'"
      by (simp add: unique_keys_def distinct_map_filter)
    from ch have ch': "check_constraints ?db'"
      by (simp add: check_constraints_def)
    from k have "distinct (map c_id (courses db))" by (simp add: unique_keys_def)
    then have "c_id c \<notin> set (map c_id (filter (\<lambda>y. \<not> wh' y) (courses db)))"
      using c(1) wh' by (rule distinct_map_filter_id)
    then have "uc_course_id uc \<notin> set (map c_id (courses ?db'))" using uc(2) by simp
    with uc(1) have "\<not> foreign_keys ?db'"
      unfolding foreign_keys_def by auto
    with k' ch' have "constraint_violation ?db' = Some ForeignKeyViolation"
      by (simp add: constraint_violation_def)
    then show ?thesis by (simp add: delete_courses_def after_rows_def)
  qed
  from rejected[of wh] c(2) have 1: "exec (DeleteCourses wh) db = Inl ForeignKeyViolation"
    by simp
  from rejected[of "\<lambda>x. wh x \<and> owns_course (Some (c_uploader_id c)) x"] c(2)
  have 2: "exec_as (Some (c_uploader_id c)) (DeleteCourses wh) db = Inl ForeignKeyViolation"
    by (simp add: owns_course_def)
  have 3: "commit db (exec_as auth_uid (DeleteCourses (course_id_is (c_id c))) db) = db"
  proof (cases "owns_course auth_uid c")
    case True
    from rejected[of "\<lambda>x. course_id_is (c_id c) x \<and> owns_course auth_uid x"] True
    show ?thesis by (simp add: commit_def course_id_is_def)
  next
    case False
    from wf have d: "distinct (map c_id (courses db))"
      by (simp add: constraint_violation_None unique_keys_def)
    have "\<And>x. x \<in> set (courses db) \<Longrightarrow>
            \<not> (course_id_is (c_id c) x \<and> owns_course auth_uid x)"
      using distinct_map_same_key[OF d c(1)] False by (auto simp: course_id_is_def)
    then have "filter (\<lambda>x. \<not> (course_id_is (c_id c) x \<and> owns_course auth_uid x)) (courses db) =
               courses db"
      and "filter (\<lambda>x. course_id_is (c_id c) x \<and> owns_course auth_uid x) (courses db) = []"
      by (simp_all add: filter_id_conv filter_empty_conv)
    then show ?thesis
      by (simp add: delete_courses_def after_rows_def wf commit_def)
  qed
  from 1 2 3 show ?thesis by (simp add: commit_def)
qed

theorem referenced_course_delete_rejected_witness:
  "constraint_violation library_db = None \<and>
   course_row ''c1'' ''u1'' \<in> set (courses library_db) \<and>
   course_id_is ''c1'' (course_row ''c1'' ''u1'') \<and>
   user_course_row ''e1'' ''u1'' ''c1'' \<in> set (user_courses library_db) \<and>
   uc_course_id (user_course_row ''e1'' ''u1'' ''c1'') = c_id (course_row ''c1'' ''u1'') \<and>
   exec (DeleteCourses (course_id_is ''c1'')) library_db = Inl ForeignKeyViolation \<and>
   exec_as (Some ''u1'') (DeleteCourses (course_id_is ''c1'')) library_db =
     Inl ForeignKeyViolation \<and>
   commit library_db (exec (DeleteCourses (course_id_is ''c1'')) library_db) = library_db"
proof -
  have h1: "constraint_violation library_db = None"
    by (simp add: example_defs statement_defs)
  have h2: "course_row ''c1'' ''u1'' \<in> set (courses library_db)"
    by (simp add: example_defs)
  have h3: "course_id_is ''c1'' (course_row ''c1'' ''u1'')"
    by (simp add: example_defs)
  have h4: "user_course_row ''e1'' ''u1'' ''c1'' \<in> set (user_courses library_db)"
    by (simp add: example_defs)
  have h5: "uc_course_id (user_course_row ''e1'' ''u1'' ''c1'') = c_id (course_row ''c1'' ''u1'')"
    by (simp add: example_defs)
  have u: "c_uploader_id (course_row ''c1'' ''u1'') = ''u1''"
    by (simp add: example_defs)
  from referenced_course_delete_rejected
         [of library_db "course_row ''c1'' ''u1''" "course_id_is ''c1''"
             "user_course_row ''e1'' ''u1'' ''c1''", OF h1 h2 h3 h4 h5]
       h1 h2 h3 h4 h5
  show ?thesis
    unfolding u by blast
qed

section \<open>Requests under the policies keep the counters in step\<close>

text \<open>From the empty database, sign-ups and requests on \<^verbatim>\<open>courses\<close> and
  \<^verbatim>\<open>user_courses\<close> that pass through the row-level policies never let a counter drift:
  the policies refuse the one kind of statement the triggers do not follow, an update
  that changes the owner of a row.\<close>

lemma sign_up_preserves:
  assumes wf: "constraint_violation db = None" and c: "stats_consistent U db"
  shows "stats_consistent U (commit db (insert_auth_user new_id full_name g now db))"
proof (cases "insert_auth_user new_id full_name g now db")
  case (Inl e)
  with c show ?thesis by (simp add: commit_def)
next
  case (Inr db')
  let ?db1 = "db\<lparr>auth_users := auth_users db @ [new_id]\<rparr>"
  from Inr have cv1: "constraint_violation ?db1 = None"
    and h: "handle_new_user new_id full_name g now ?db1 = Inr db'"
    by (simp_all add: insert_auth_user_def Let_def split: option.splits)
  from cv1 have "distinct (auth_users db @ [new_id])"
    by (simp add: constraint_violation_None unique_keys_def)
  then have new: "new_id \<notin> set (auth_users db)" by simp
  from wf have fk: "foreign_keys db" by (simp add: constraint_violation_None)
  from fk new have "\<And>uc. uc \<in> set (user_courses db) \<Longrightarrow> uc_user_id uc \<noteq> new_id"
    and "\<And>c. c \<in> set (courses db) \<Longrightarrow> c_uploader_id c \<noteq> new_id"
    by (auto simp: foreign_keys_def)
  then have none: "filter (\<lambda>uc. uc_user_id uc = new_id) (user_courses db) = []"
    "filter (\<lambda>uc. uc_user_id uc = new_id \<and> uc_completed uc = Some True) (user_courses db) = []"
    "filter (\<lambda>c. c_uploader_id c = new_id) (courses db) = []"
    by (simp_all add: filter_empty_conv)
  from handle_new_user_rows[OF h] c none Inr show ?thesis
    by (auto simp: commit_def stats_consistent_def)
qed

lemma serve_preserves:
  assumes "request_on_enrollments_or_courses r" and "constraint_violation db = None"
    and "stats_consistent U db"
  shows "stats_consistent U (commit db (serve r db))"
  using assms by (cases r) (simp_all add: sign_up_preserves exec_as_preserves)

lemma serve_keeps_constraints:
  "constraint_violation db = None \<Longrightarrow> constraint_violation (commit db (serve r db)) = None"
  by (cases r) (simp_all add: sign_up_keeps_constraints exec_as_keeps_constraints)

lemma run_requests_preserve:
  assumes "\<forall>r \<in> set rs. request_on_enrollments_or_courses r"
    and "constraint_violation db = None" and "stats_consistent U db"
  shows "stats_consistent U (run_requests rs db)"
  using assms
  by (induction rs arbitrary: db) (simp_all add: serve_preserves serve_keeps_constraints)

lemma policies_keep_counters_in_step:
  assumes "\<forall>r \<in> set rs. request_on_enrollments_or_courses r"
  shows "stats_consistent U (run_requests rs empty_database)"
  using assms
  by (rule run_requests_preserve)
     (simp_all add: empty_database_def constraint_violation_def unique_keys_def
        check_constraints_def foreign_keys_def stats_consistent_def)

section \<open>Enrolling and unenrolling\<close>

lemma consistent_recompute_id:
  assumes "stats_consistent U db"
  shows "update_profile_stats U db = db"
proof -
  have "map (\<lambda>p. if p_user_id p = U
                   then p\<lparr>p_completed := Some (completed_count U db),
                          p_enrolled := Some (enrolled_count U db),
                          p_uploads := Some (uploads_count U db)\<rparr>
                   else p) (profiles db) = profiles db"
    using assms unfolding stats_consistent_counts by (intro map_idI) auto
  then show ?thesis by (simp add: update_profile_stats_def)
qed

lemma constraint_violation_drop_user_course:
  "constraint_violation (db\<lparr>user_courses := user_courses db @ [uc]\<rparr>) = None \<Longrightarrow>
   constraint_violation db = None"
  by (simp add: constraint_violation_None unique_keys_def check_constraints_def foreign_keys_def)

lemma database_eqI:
  fixes a b :: database
  shows "auth_users a = auth_users b \<Longrightarrow> profiles a = profiles b \<Longrightarrow> courses a = courses b \<Longrightarrow>
   user_courses a = user_courses b \<Longrightarrow> a = b"
  by simp

lemma recompute_overwrites:
  assumes "auth_users db' = auth_users db" and "courses db' = courses db"
    and "user_courses db' = user_courses db"
    and "profiles db' = profiles (update_profile_stats u db0)"
    and "profiles db0 = profiles db"
  shows "update_profile_stats u db' = update_profile_stats u db"
proof -
  have "profiles (update_profile_stats u db') = profiles (update_profile_stats u db)"
    using assms
    by (simp add: recompute_profiles completed_count_def enrolled_count_def uploads_count_def comp_def
             cong: map_cong)
  then show ?thesis
    using assms(1-3) by (intro database_eqI) simp_all
qed

lemma distinct_filter_last:
  assumes "distinct (map k (xs @ [x]))"
  shows "filter (\<lambda>y. k y \<noteq> k x) (xs @ [x]) = xs" and "filter (\<lambda>y. k y = k x) (xs @ [x]) = [x]"
proof -
  from assms have "k x \<notin> k ` set xs" by simp
  then have "\<And>y. y \<in> set xs \<Longrightarrow> k y \<noteq> k x" by (metis imageI)
  then show "filter (\<lambda>y. k y \<noteq> k x) (xs @ [x]) = xs" and "filter (\<lambda>y. k y = k x) (xs @ [x]) = [x]"
    by (simp_all add: filter_id_conv filter_empty_conv)
qed

text \<open>
  Claim C4, as amended. When the insert of an enrollment \<open>uc\<close> of user \<open>U\<close> is accepted,
  deleting that row right away is accepted too and leaves exactly the database that
  \<^verbatim>\<open>update_profile_stats(U)\<close> makes of the database before the insert; when the counters
  of \<open>U\<close> equalled their counts before the insert, that is the database before the insert,
  so all three counters are back at their values.
\<close>

theorem enroll_then_unenroll:
  assumes "exec (InsertUserCourse uc) db = Inr db1"
  shows "exec (DeleteUserCourses (user_course_id_is (uc_id uc))) db1 =
           Inr (update_profile_stats (uc_user_id uc) db) \<and>
         (stats_consistent (uc_user_id uc) db \<longrightarrow>
            exec (DeleteUserCourses (user_course_id_is (uc_id uc))) db1 = Inr db)"
proof -
  let ?U = "uc_user_id uc"
  let ?ins = "db\<lparr>user_courses := user_courses db @ [uc]\<rparr>"
  from assms have cv: "constraint_violation ?ins = None"
    and db1: "db1 = update_profile_stats ?U ?ins"
    by (auto simp: insert_user_course_def after_rows_def trigger_update_profile_stats_def
          perform_update_profile_stats_def split: option.splits)
  from cv have "distinct (map uc_id (user_courses db @ [uc]))"
    by (simp add: constraint_violation_None unique_keys_def)
  note rows = distinct_filter_last[OF this]
  from rows(1)
  have f1: "filter (\<lambda>r. \<not> user_course_id_is (uc_id uc) r) (user_courses db1) = user_courses db"
    unfolding user_course_id_is_fun by (simp add: db1)
  from rows(2)
  have f2: "filter (user_course_id_is (uc_id uc)) (user_courses db1) = [uc]"
    unfolding user_course_id_is_fun by (simp add: db1)
  let ?del = "db1\<lparr>user_courses := user_courses db\<rparr>"
  have "constraint_violation ?del = constraint_violation db"
    by (rule constraint_violation_cong)
       (simp_all add: db1 recompute_profiles comp_def if_distrib cong: if_cong)
  with cv have cv': "constraint_violation ?del = None"
    by (simp add: constraint_violation_drop_user_course)
  have r: "update_profile_stats ?U ?del = update_profile_stats ?U db"
    by (rule recompute_overwrites[where ?db0.0 = ?ins]) (simp_all add: db1)
  have "exec (DeleteUserCourses (user_course_id_is (uc_id uc))) db1 =
        after_rows ?del [trigger_update_profile_stats DELETE None (Some uc)]"
    unfolding exec.simps delete_user_courses_def f1 f2 by simp
  also have "\<dots> = Inr (update_profile_stats ?U db)"
    by (simp add: after_rows_def cv' r trigger_update_profile_stats_def
          perform_update_profile_stats_def)
  finally have del: "exec (DeleteUserCourses (user_course_id_is (uc_id uc))) db1 =
             Inr (update_profile_stats ?U db)" .
  then show ?thesis by (simp add: consistent_recompute_id)
qed

theorem enroll_then_unenroll_witness:
  "accepted (exec enroll_c2 library_db) \<and>
   stats_consistent ''u1'' library_db \<and>
   run_statements [enroll_c2, unenroll_c2] library_db = library_db"
proof -
  let ?uc = "user_course_row ''e2'' ''u1'' ''c2''"
  have a: "accepted (exec enroll_c2 library_db)"
    by (simp add: enroll_c2_def example_defs statement_defs)
  then have h: "exec (InsertUserCourse ?uc) library_db =
                Inr (commit library_db (exec enroll_c2 library_db))"
    by (simp add: enroll_c2_def accepted_def commit_def split: sum.splits)
  have c: "stats_consistent ''u1'' library_db"
    by (simp add: example_defs stats_consistent_def)
  have k: "uc_id ?uc = ''e2''" "uc_user_id ?uc = ''u1''"
    by (simp_all add: example_defs)
  from enroll_then_unenroll[OF h] c
  have "exec (DeleteUserCourses (user_course_id_is (uc_id ?uc)))
          (commit library_db (exec enroll_c2 library_db)) = Inr library_db"
    unfolding k by blast
  then have "exec unenroll_c2 (commit library_db (exec enroll_c2 library_db)) = Inr library_db"
    unfolding k unenroll_c2_def .
  then have "run_statements [enroll_c2, unenroll_c2] library_db = library_db"
    by (simp add: commit_def)
  with a c show ?thesis by blast
qed

text \<open>
  The claim as stated fails: in \<open>stale_db\<close> user \<open>u1\<close> has one enrollment and
  \<^verbatim>\<open>enrolled = 0\<close>; enrolling in \<open>c2\<close> and unenrolling leaves the same rows and
  \<^verbatim>\<open>enrolled = 1\<close>.
\<close>

theorem enroll_then_unenroll_changes_stale_counter:
  "accepted (exec enroll_c2 stale_db) \<and>
   accepted (exec unenroll_c2 (commit stale_db (exec enroll_c2 stale_db))) \<and>
   user_courses (run_statements [enroll_c2, unenroll_c2] stale_db) = user_courses stale_db \<and>
   map p_enrolled (profiles stale_db) = [Some 0, Some 0] \<and>
   map p_enrolled (profiles (run_statements [enroll_c2, unenroll_c2] stale_db)) =
     [Some 1, Some 0]"
  by (simp add: enroll_c2_def unenroll_c2_def example_defs statement_defs)

section \<open>Marking an enrollment completed and incomplete\<close>

lemma constraint_violation_keys_cong:
  assumes "auth_users db' = auth_users db"
    and "profiles db' = profiles db"
    and "courses db' = courses db"
    and "map uc_id (user_courses db') = map uc_id (user_courses db)"
    and "map (\<lambda>uc. (uc_user_id uc, uc_course_id uc)) (user_courses db') =
         map (\<lambda>uc. (uc_user_id uc, uc_course_id uc)) (user_courses db)"
  shows "constraint_violation db' = constraint_violation db"
proof -
  let ?k = "\<lambda>uc. (uc_user_id uc, uc_course_id uc)"
  have u: "unique_keys db' = unique_keys db"
    using assms by (simp add: unique_keys_def)
  have c: "check_constraints db' = check_constraints db"
    using assms by (simp add: check_constraints_def)
  have "(\<forall>uc \<in> set (user_courses db').
           uc_user_id uc \<in> set (auth_users db') \<and> uc_course_id uc \<in> set (map c_id (courses db'))) \<longleftrightarrow>
        (\<forall>k \<in> set (map ?k (user_courses db')).
           fst k \<in> set (auth_users db') \<and> snd k \<in> set (map c_id (courses db')))"
    unfolding ball_map_rows by simp
  also have "\<dots> \<longleftrightarrow> (\<forall>k \<in> set (map ?k (user_courses db)).
           fst k \<in> set (auth_users db) \<and> snd k \<in> set (map c_id (courses db)))"
    using assms(1,3,5) by simp
  also have "\<dots> \<longleftrightarrow> (\<forall>uc \<in> set (user_courses db).
           uc_user_id uc \<in> set (auth_users db) \<and> uc_course_id uc \<in> set (map c_id (courses db)))"
    unfolding ball_map_rows by simp
  finally have f: "foreign_keys db' = foreign_keys db"
    using assms(1,2,3) by (simp add: foreign_keys_def)
  show ?thesis by (simp add: constraint_violation_def u c f)
qed

lemma distinct_map_filter_eq:
  assumes "distinct (map k xs)" and "x \<in> set xs"
  shows "filter (\<lambda>y. k y = k x) xs = [x]"
  using assms
proof (induction xs)
  case Nil
  then show ?case by simp
next
  case (Cons a xs)
  show ?case
  proof (cases "a = x")
    case True
    from Cons.prems(1) have "k a \<notin> k ` set xs" by simp
    then have "\<And>y. y \<in> set xs \<Longrightarrow> k y \<noteq> k a" by (metis imageI)
    with True show ?thesis by (simp add: filter_empty_conv)
  next
    case False
    with Cons.prems have x: "x \<in> set xs" and "k a \<notin> k ` set xs" by simp_all
    then have "k a \<noteq> k x" by (metis imageI)
    with Cons x show ?thesis by simp
  qed
qed

lemma update_one_user_course:
  assumes wf: "constraint_violation db = None"
    and uc: "uc \<in> set (user_courses db)"
    and wh: "\<And>r. r \<in> set (user_courses db) \<Longrightarrow> wh r \<longleftrightarrow> uc_id r = uc_id uc"
    and keys: "\<And>r. uc_id (st r) = uc_id r \<and> uc_user_id (st r) = uc_user_id r \<and>
                 uc_course_id (st r) = uc_course_id r"
  shows "update_user_courses wh st db =
         Inr (update_profile_stats (uc_user_id uc)
                (db\<lparr>user_courses :=
                      map (\<lambda>r. if uc_id r = uc_id uc then st r else r) (user_courses db)\<rparr>))"
proof -
  let ?f = "\<lambda>r. if uc_id r = uc_id uc then st r else r"
  let ?post = "db\<lparr>user_courses := map ?f (user_courses db)\<rparr>"
  have m: "map (\<lambda>r. if wh r then st r else r) (user_courses db) = map ?f (user_courses db)"
    using wh by (intro map_cong) auto
  from wf have "distinct (map uc_id (user_courses db))"
    by (simp add: constraint_violation_None unique_keys_def)
  then have "filter (\<lambda>r. uc_id r = uc_id uc) (user_courses db) = [uc]"
    using uc by (rule distinct_map_filter_eq)
  moreover have "filter wh (user_courses db) = filter (\<lambda>r. uc_id r = uc_id uc) (user_courses db)"
    using wh by (intro filter_cong) auto
  ultimately have f: "filter wh (user_courses db) = [uc]" by simp
  have "constraint_violation ?post = constraint_violation db"
    using keys by (intro constraint_violation_keys_cong) (simp_all add: comp_def if_distrib cong: if_cong)
  with wf have cv: "constraint_violation ?post = None" by simp
  show ?thesis
    by (simp add: update_user_courses_def after_rows_def m f cv keys
          trigger_update_profile_stats_def perform_update_profile_stats_def)
qed

lemma toggle_result:
  assumes wf: "constraint_violation db = None" and uc: "uc \<in> set (user_courses db)"
  shows "toggleCourseCompletion (uc_user_id uc) (uc_id uc) currentStatus now db =
         Inr (update_profile_stats (uc_user_id uc)
                (db\<lparr>user_courses :=
                      map (\<lambda>r. if uc_id r = uc_id uc
                               then r\<lparr>uc_completed := Some (\<not> currentStatus),
                                      uc_completed_at := (if \<not> currentStatus then Some now else None)\<rparr>
                               else r)
                          (user_courses db)\<rparr>))"
proof -
  let ?st = "\<lambda>r. r\<lparr>uc_completed := Some (\<not> currentStatus),
                     uc_completed_at := (if \<not> currentStatus then Some now else None)\<rparr>"
  let ?wh = "\<lambda>r. (uc_id r = uc_id uc \<and> uc_user_id r = uc_user_id uc) \<and>
                  owns_user_course (Some (uc_user_id uc)) r"
  from wf have d: "distinct (map uc_id (user_courses db))"
    by (simp add: constraint_violation_None unique_keys_def)
  have wh: "\<And>r. r \<in> set (user_courses db) \<Longrightarrow> ?wh r \<longleftrightarrow> uc_id r = uc_id uc"
    using distinct_map_same_key[OF d uc] by (auto simp: owns_user_course_def)
  have "toggleCourseCompletion (uc_user_id uc) (uc_id uc) currentStatus now db =
        update_user_courses ?wh ?st db"
    by (simp add: toggleCourseCompletion_def owns_user_course_def)
  also have "\<dots> = Inr (update_profile_stats (uc_user_id uc)
                (db\<lparr>user_courses := map (\<lambda>r. if uc_id r = uc_id uc then ?st r else r) (user_courses db)\<rparr>))"
    using wf uc wh by (rule update_one_user_course) simp_all
  finally show ?thesis .
qed

lemma length_filter_map_same:
  "(\<And>x. x \<in> set xs \<Longrightarrow> Q (f x) \<longleftrightarrow> Q x) \<Longrightarrow> length (filter Q (map f xs)) = length (filter Q xs)"
  by (induction xs) auto

lemma toggle_twice:
  fixes now1 now2 :: timestamptz
  assumes wf: "constraint_violation db = None" and uc: "uc \<in> set (user_courses db)"
    and inc: "uc_completed uc \<noteq> Some True"
  defines "marked \<equiv> map (\<lambda>r. if uc_id r = uc_id uc
                               then r\<lparr>uc_completed := Some True, uc_completed_at := Some now1\<rparr>
                               else r) (user_courses db)"
    and "unmarked \<equiv> map (\<lambda>r. if uc_id r = uc_id uc
                               then r\<lparr>uc_completed := Some False, uc_completed_at := None\<rparr>
                               else r) (user_courses db)"
  shows "toggleCourseCompletion (uc_user_id uc) (uc_id uc) False now1 db =
           Inr (update_profile_stats (uc_user_id uc) (db\<lparr>user_courses := marked\<rparr>))"
    and "toggleCourseCompletion (uc_user_id uc) (uc_id uc) True now2
           (update_profile_stats (uc_user_id uc) (db\<lparr>user_courses := marked\<rparr>)) =
           Inr ((update_profile_stats (uc_user_id uc) db)\<lparr>user_courses := unmarked\<rparr>)"
proof -
  let ?U = "uc_user_id uc"
  let ?db1 = "update_profile_stats ?U (db\<lparr>user_courses := marked\<rparr>)"
  let ?uc1 = "uc\<lparr>uc_completed := Some True, uc_completed_at := Some now1\<rparr>"
  show 1: "toggleCourseCompletion ?U (uc_id uc) False now1 db = Inr ?db1"
    using toggle_result[OF wf uc, of False now1, unfolded not_False_eq_True if_True]
    unfolding marked_def .
  have "constraint_violation (db\<lparr>user_courses := marked\<rparr>) = constraint_violation db"
    by (rule constraint_violation_keys_cong) (simp_all add: marked_def comp_def if_distrib cong: if_cong)
  with wf have wf1: "constraint_violation ?db1 = None" by simp
  from uc have uc1: "?uc1 \<in> set (user_courses ?db1)"
    by (auto simp: marked_def image_iff intro!: bexI[of _ uc])
  have m: "map (\<lambda>r. if uc_id r = uc_id uc
                    then r\<lparr>uc_completed := Some False, uc_completed_at := None\<rparr> else r) marked = unmarked"
    by (simp add: marked_def unmarked_def comp_def if_distrib cong: if_cong)
  from wf have d: "distinct (map uc_id (user_courses db))"
    by (simp add: constraint_violation_None unique_keys_def)
  let ?db2 = "update_profile_stats ?U (?db1\<lparr>user_courses := unmarked\<rparr>)"
  have 2: "toggleCourseCompletion ?U (uc_id uc) True now2 ?db1 = Inr ?db2"
    using toggle_result[OF wf1 uc1, of True now2, unfolded not_True_eq_False if_False]
    by (simp add: m)
  have e: "length (filter (\<lambda>r. uc_user_id r = ?U) unmarked) =
           length (filter (\<lambda>r. uc_user_id r = ?U) (user_courses db))"
    unfolding unmarked_def by (rule length_filter_map_same) simp
  have c: "length (filter (\<lambda>r. uc_user_id r = ?U \<and> uc_completed r = Some True) unmarked) =
           length (filter (\<lambda>r. uc_user_id r = ?U \<and> uc_completed r = Some True) (user_courses db))"
    unfolding unmarked_def
  proof (rule length_filter_map_same)
    fix x assume "x \<in> set (user_courses db)"
    with distinct_map_same_key[OF d uc] inc
    show "(uc_user_id (if uc_id x = uc_id uc then x\<lparr>uc_completed := Some False, uc_completed_at := None\<rparr> else x) = ?U \<and>
           uc_completed (if uc_id x = uc_id uc then x\<lparr>uc_completed := Some False, uc_completed_at := None\<rparr> else x) = Some True)
          \<longleftrightarrow> (uc_user_id x = ?U \<and> uc_completed x = Some True)"
      by auto
  qed
  have "?db2 = (update_profile_stats ?U db)\<lparr>user_courses := unmarked\<rparr>"
    by (rule database_eqI)
       (simp_all add: recompute_profiles completed_count_def enrolled_count_def uploads_count_def
          e c comp_def cong: map_cong)
  with 2 show "toggleCourseCompletion ?U (uc_id uc) True now2 ?db1 =
           Inr ((update_profile_stats ?U db)\<lparr>user_courses := unmarked\<rparr>)" by simp
qed

lemma handleMarkCompleted_toggle:
  "handleMarkCompleted (Some user) (Some ucid) completed now db =
   toggleCourseCompletion user ucid completed now db"
proof -
  have "(\<lambda>uc. uc_id uc = ucid \<and> owns_user_course (Some user) uc) =
        (\<lambda>uc. (uc_id uc = ucid \<and> uc_user_id uc = user) \<and> owns_user_course (Some user) uc)"
    by (auto simp: fun_eq_iff owns_user_course_def)
  then show ?thesis
    by (simp add: handleMarkCompleted_def toggleCourseCompletion_def owns_user_course_def)
qed

text \<open>
  Claim C5, as amended. In a database that satisfies its constraints, take an enrollment
  that is not completed. Marking it completed (by \<^verbatim>\<open>toggleCourseCompletion\<close> or by
  \<^verbatim>\<open>handleMarkCompleted\<close>, as its owner) is accepted and sets \<^verbatim>\<open>completed = true\<close> and
  \<^verbatim>\<open>completed_at\<close> to the time of the call; marking it incomplete right after is accepted
  and sets \<^verbatim>\<open>completed = false\<close> and \<^verbatim>\<open>completed_at\<close> to null; no other enrollment
  changes. The profiles are then those that \<^verbatim>\<open>update_profile_stats\<close> of the owner makes
  of the profiles before the toggle; when the owner's counters equalled their counts
  before, every profile row, and so the \<^verbatim>\<open>completed\<close> counter, is as before.
\<close>

theorem mark_then_unmark_round_trip:
  fixes now1 now2 :: timestamptz
  assumes wf: "constraint_violation db = None" and uc: "uc \<in> set (user_courses db)"
    and inc: "uc_completed uc \<noteq> Some True"
  shows "\<exists>db1 db2.
     toggleCourseCompletion (uc_user_id uc) (uc_id uc) False now1 db = Inr db1 \<and>
     toggleCourseCompletion (uc_user_id uc) (uc_id uc) True now2 db1 = Inr db2 \<and>
     handleMarkCompleted (Some (uc_user_id uc)) (Some (uc_id uc)) False now1 db = Inr db1 \<and>
     handleMarkCompleted (Some (uc_user_id uc)) (Some (uc_id uc)) True now2 db1 = Inr db2 \<and>
     user_courses db1 =
       map (\<lambda>r. if uc_id r = uc_id uc
                then r\<lparr>uc_completed := Some True, uc_completed_at := Some now1\<rparr> else r)
           (user_courses db) \<and>
     user_courses db2 =
       map (\<lambda>r. if uc_id r = uc_id uc
                then r\<lparr>uc_completed := Some False, uc_completed_at := None\<rparr> else r)
           (user_courses db) \<and>
     profiles db2 = profiles (update_profile_stats (uc_user_id uc) db) \<and>
     (stats_consistent (uc_user_id uc) db \<longrightarrow> profiles db2 = profiles db)"
proof -
  let ?U = "uc_user_id uc"
  let ?marked = "map (\<lambda>r. if uc_id r = uc_id uc
                then r\<lparr>uc_completed := Some True, uc_completed_at := Some now1\<rparr> else r)
           (user_courses db)"
  let ?unmarked = "map (\<lambda>r. if uc_id r = uc_id uc
                then r\<lparr>uc_completed := Some False, uc_completed_at := None\<rparr> else r)
           (user_courses db)"
  let ?db1 = "update_profile_stats ?U (db\<lparr>user_courses := ?marked\<rparr>)"
  let ?db2 = "(update_profile_stats ?U db)\<lparr>user_courses := ?unmarked\<rparr>"
  note t = toggle_twice[OF wf uc inc]
  have "toggleCourseCompletion ?U (uc_id uc) False now1 db = Inr ?db1 \<and>
     toggleCourseCompletion ?U (uc_id uc) True now2 ?db1 = Inr ?db2 \<and>
     handleMarkCompleted (Some ?U) (Some (uc_id uc)) False now1 db = Inr ?db1 \<and>
     handleMarkCompleted (Some ?U) (Some (uc_id uc)) True now2 ?db1 = Inr ?db2 \<and>
     user_courses ?db1 = ?marked \<and> user_courses ?db2 = ?unmarked \<and>
     profiles ?db2 = profiles (update_profile_stats ?U db) \<and>
     (stats_consistent ?U db \<longrightarrow> profiles ?db2 = profiles db)"
    using t by (simp add: handleMarkCompleted_toggle consistent_recompute_id)
  then show ?thesis by blast
qed

theorem mark_then_unmark_round_trip_witness:
  "constraint_violation library_db = None \<and>
   user_course_row ''e1'' ''u1'' ''c1'' \<in> set (user_courses library_db) \<and>
   uc_completed (user_course_row ''e1'' ''u1'' ''c1'') \<noteq> Some True \<and>
   stats_consistent ''u1'' library_db \<and>
   profiles (mark_then_unmark ''u1'' ''e1'' ''t1'' ''t2'' library_db) = profiles library_db \<and>
   map uc_completed_at (user_courses (mark_then_unmark ''u1'' ''e1'' ''t1'' ''t2'' library_db)) =
     [None]"
proof -
  let ?uc = "user_course_row ''e1'' ''u1'' ''c1''"
  have h1: "constraint_violation library_db = None"
    by (simp add: example_defs statement_defs)
  have h2: "?uc \<in> set (user_courses library_db)"
    by (simp add: example_defs)
  have h3: "uc_completed ?uc \<noteq> Some True"
    by (simp add: example_defs)
  have c: "stats_consistent ''u1'' library_db"
    by (simp add: example_defs stats_consistent_def)
  have k: "uc_id ?uc = ''e1''" "uc_user_id ?uc = ''u1''"
    by (simp_all add: example_defs)
  from mark_then_unmark_round_trip[OF h1 h2 h3, of "''t1''" "''t2''"]
  obtain db1 db2 where
    t1: "toggleCourseCompletion ''u1'' ''e1'' False ''t1'' library_db = Inr db1" and
    t2: "toggleCourseCompletion ''u1'' ''e1'' True ''t2'' db1 = Inr db2" and
    rows: "user_courses db2 =
       map (\<lambda>r. if uc_id r = ''e1''
                then r\<lparr>uc_completed := Some False, uc_completed_at := None\<rparr> else r)
           (user_courses library_db)" and
    p: "stats_consistent ''u1'' library_db \<longrightarrow> profiles db2 = profiles library_db"
    unfolding k by blast
  from t1 t2 have m: "mark_then_unmark ''u1'' ''e1'' ''t1'' ''t2'' library_db = db2"
    by (simp add: mark_then_unmark_def commit_def)
  from p c have 1: "profiles (mark_then_unmark ''u1'' ''e1'' ''t1'' ''t2'' library_db) =
                    profiles library_db"
    unfolding m by blast
  have 2: "map uc_completed_at
             (user_courses (mark_then_unmark ''u1'' ''e1'' ''t1'' ''t2'' library_db)) = [None]"
    unfolding m rows by (simp add: example_defs)
  from h1 h2 h3 c 1 2 show ?thesis by blast
qed

text \<open>
  The claim as stated fails: in \<open>drifted_db\<close> the profile of \<open>u1\<close> holds
  \<^verbatim>\<open>completed = 2\<close> and no enrollment of \<open>u1\<close> is completed; marking \<open>e1\<close> completed and
  then incomplete leaves \<^verbatim>\<open>completed_at\<close> null and \<^verbatim>\<open>completed = 0\<close>.
\<close>

theorem round_trip_resets_drifted_counter:
  "constraint_violation drifted_db = None \<and>
   map uc_completed (user_courses drifted_db) = [Some False] \<and>
   map p_completed (profiles drifted_db) = [Some 2, Some 0] \<and>
   accepted (toggleCourseCompletion ''u1'' ''e1'' False ''t1'' drifted_db) \<and>
   map uc_completed_at (user_courses (mark_then_unmark ''u1'' ''e1'' ''t1'' ''t2'' drifted_db)) =
     [None] \<and>
   map p_completed (profiles (mark_then_unmark ''u1'' ''e1'' ''t1'' ''t2'' drifted_db)) =
     [Some 0, Some 0]"
  by (simp add: drifted_db_def mark_then_unmark_def toggleCourseCompletion_def example_defs
        statement_defs request_defs)

section \<open>Editing the profile\<close>

lemma updateProfile_cases:
  "updateProfile user fullName avatarSeed now db =
     (case constraint_violation db of
        Some e \<Rightarrow> Inl e
      | None \<Rightarrow>
          Inr (db\<lparr>profiles :=
                    map (\<lambda>p. if p_user_id p = user
                             then p\<lparr>p_full_name := Some fullName,
                                    p_avatar_url :=
                                      Some (''https://api.dicebear.com/7.x/avataaars/svg?seed=''
                                            @ avatarSeed),
                                    p_updated_at := now\<rparr>
                             else p)
                        (profiles db)\<rparr>))"
proof -
  let ?st = "\<lambda>p. p\<lparr>p_full_name := Some fullName,
                    p_avatar_url :=
                      Some (''https://api.dicebear.com/7.x/avataaars/svg?seed='' @ avatarSeed),
                    p_updated_at := now\<rparr>"
  let ?post = "db\<lparr>profiles := map (\<lambda>p. if p_user_id p = user then ?st p else p) (profiles db)\<rparr>"
  have wh: "(\<lambda>p. p_user_id p = user \<and> user = p_user_id p) = (\<lambda>p. p_user_id p = user)"
    by (auto simp: fun_eq_iff)
  have cv: "constraint_violation ?post = constraint_violation db"
    by (rule constraint_violation_cong) (simp_all add: comp_def if_distrib cong: if_cong)
  have "updateProfile user fullName avatarSeed now db = update_profiles (\<lambda>p. p_user_id p = user) ?st db"
    by (simp add: updateProfile_def owns_profile_def wh)
  also have "\<dots> = (case constraint_violation db of Some e \<Rightarrow> Inl e | None \<Rightarrow> Inr ?post)"
    unfolding update_profiles_def after_rows_def cv by (simp split: option.split)
  finally show ?thesis .
qed

text \<open>
  Claim C10. \<^verbatim>\<open>updateProfile\<close> leaves \<^verbatim>\<open>courses\<close>, \<^verbatim>\<open>user_courses\<close> and the users
  untouched, keeps the three counters of every profile row, leaves every row of another
  user as it was, and changes at most \<^verbatim>\<open>full_name\<close>, \<^verbatim>\<open>avatar_url\<close> and
  \<^verbatim>\<open>updated_at\<close> of a row of the caller; in a database that satisfies its constraints
  it is accepted and writes these three columns of the caller's rows.
\<close>

theorem updateProfile_frame:
  "auth_users (commit db (updateProfile user fullName avatarSeed now db)) = auth_users db \<and>
   courses (commit db (updateProfile user fullName avatarSeed now db)) = courses db \<and>
   user_courses (commit db (updateProfile user fullName avatarSeed now db)) = user_courses db \<and>
   list_all2
     (\<lambda>p p'. counters p' = counters p \<and> (p_user_id p \<noteq> user \<longrightarrow> p' = p) \<and>
              p' = p\<lparr>p_full_name := p_full_name p', p_avatar_url := p_avatar_url p',
                     p_updated_at := p_updated_at p'\<rparr>)
     (profiles db) (profiles (commit db (updateProfile user fullName avatarSeed now db))) \<and>
   (constraint_violation db = None \<longrightarrow>
      updateProfile user fullName avatarSeed now db =
        Inr (db\<lparr>profiles :=
                  map (\<lambda>p. if p_user_id p = user
                           then p\<lparr>p_full_name := Some fullName,
                                  p_avatar_url :=
                                    Some (''https://api.dicebear.com/7.x/avataaars/svg?seed=''
                                          @ avatarSeed),
                                  p_updated_at := now\<rparr>
                           else p)
                      (profiles db)\<rparr>))"
  by (cases "constraint_violation db")
     (simp_all add: updateProfile_cases commit_def list.rel_map list.rel_refl counters_def)

theorem updateProfile_frame_witness:
  "constraint_violation library_db = None \<and>
   map counters (profiles (commit library_db (updateProfile ''u1'' ''Ada'' ''s1'' ''t9'' library_db))) =
     map counters (profiles library_db) \<and>
   map p_full_name (profiles (commit library_db (updateProfile ''u1'' ''Ada'' ''s1'' ''t9'' library_db))) =
     [Some ''Ada'', None] \<and>
   map p_updated_at (profiles (commit library_db (updateProfile ''u1'' ''Ada'' ''s1'' ''t9'' library_db))) =
     [''t9'', ''t0'']"
proof -
  have h: "constraint_violation library_db = None"
    by (simp add: example_defs statement_defs)
  from updateProfile_frame[of library_db "''u1''" "''Ada''" "''s1''" "''t9''"] h
  have "updateProfile ''u1'' ''Ada'' ''s1'' ''t9'' library_db =
        Inr (library_db\<lparr>profiles :=
                  map (\<lambda>p. if p_user_id p = ''u1''
                           then p\<lparr>p_full_name := Some ''Ada'',
                                  p_avatar_url :=
                                    Some (''https://api.dicebear.com/7.x/avataaars/svg?seed=''
                                          @ ''s1''),
                                  p_updated_at := ''t9''\<rparr>
                           else p)
                      (profiles library_db)\<rparr>)"
    by blast
  then have "map counters (profiles (commit library_db (updateProfile ''u1'' ''Ada'' ''s1'' ''t9'' library_db))) =
     map counters (profiles library_db) \<and>
   map p_full_name (profiles (commit library_db (updateProfile ''u1'' ''Ada'' ''s1'' ''t9'' library_db))) =
     [Some ''Ada'', None] \<and>
   map p_updated_at (profiles (commit library_db (updateProfile ''u1'' ''Ada'' ''s1'' ''t9'' library_db))) =
     [''t9'', ''t0'']"
    by (simp add: commit_def example_defs counters_def)
  with h show ?thesis by blast
qed

section \<open>The scenario of a fresh user\<close>

text \<open>The counters of \<open>u1\<close> along the scenario: all 0 after sign-up; \<^verbatim>\<open>enrolled = 1\<close>
  after adding \<open>c1\<close>; \<^verbatim>\<open>completed = 1\<close> with \<^verbatim>\<open>completed_at\<close> set after marking it
  completed; \<^verbatim>\<open>uploads = 1\<close> after the upload; \<^verbatim>\<open>enrolled = 0\<close> and \<^verbatim>\<open>completed = 0\<close>
  after removing \<open>c1\<close>. Deleting the course \<open>c2\<close>, which no enrollment references, from
  \<open>library_db\<close> is accepted and brings \<^verbatim>\<open>uploads\<close> of \<open>u2\<close> to 0.\<close>

lemma fresh_user_scenario:
  "counters (hd (profiles fresh_db)) = (Some 0, Some 0, Some 0) \<and>
   counters (hd (profiles after_enroll)) = (Some 0, Some 1, Some 0) \<and>
   counters (hd (profiles after_complete)) = (Some 1, Some 1, Some 0) \<and>
   map uc_completed_at (user_courses after_complete) = [Some ''t2''] \<and>
   counters (hd (profiles after_upload)) = (Some 1, Some 1, Some 1) \<and>
   counters (hd (profiles after_unenroll)) = (Some 0, Some 0, Some 1) \<and>
   user_courses after_unenroll = []"
proof -
  let ?u2 = "profile_row ''p2'' ''u2'' 0 0 1"
  let ?c1 = "course_row ''c1'' ''u2''"
  let ?e1 = "user_course_row ''e1'' ''u1'' ''c1''"
  let ?e1' = "?e1\<lparr>uc_completed := Some True, uc_completed_at := Some ''t2''\<rparr>"
  have 0: "fresh_db =
      \<lparr>auth_users = [''u1'', ''u2''], profiles = [profile_row ''p1'' ''u1'' 0 0 0, ?u2],
       courses = [?c1], user_courses = []\<rparr>"
    by (simp add: fresh_db_def example_defs statement_defs request_defs)
  have 1: "after_enroll =
      \<lparr>auth_users = [''u1'', ''u2''], profiles = [profile_row ''p1'' ''u1'' 0 1 0, ?u2],
       courses = [?c1], user_courses = [?e1]\<rparr>"
    unfolding after_enroll_def 0
    by (simp add: handleAddToLibrary_def example_defs statement_defs request_defs)
  have 2: "after_complete =
      \<lparr>auth_users = [''u1'', ''u2''], profiles = [profile_row ''p1'' ''u1'' 1 1 0, ?u2],
       courses = [?c1], user_courses = [?e1']\<rparr>"
    unfolding after_complete_def 1
    by (simp add: toggleCourseCompletion_def example_defs statement_defs request_defs)
  have 3: "after_upload =
      \<lparr>auth_users = [''u1'', ''u2''], profiles = [profile_row ''p1'' ''u1'' 1 1 1, ?u2],
       courses = [?c1, course_row ''c2'' ''u1''], user_courses = [?e1']\<rparr>"
    unfolding after_upload_def 2
    by (simp add: example_defs statement_defs request_defs)
  have 4: "after_unenroll =
      \<lparr>auth_users = [''u1'', ''u2''], profiles = [profile_row ''p1'' ''u1'' 0 0 1, ?u2],
       courses = [?c1, course_row ''c2'' ''u1''], user_courses = []\<rparr>"
    unfolding after_unenroll_def 3
    by (simp add: removeCourseFromLibrary_def example_defs statement_defs request_defs)
  show ?thesis
    unfolding 0 1 2 3 4 by (simp add: example_defs counters_def)
qed

lemma unreferenced_course_delete_accepted:
  "accepted (exec (DeleteCourses (course_id_is ''c2'')) library_db) \<and>
   map c_id (courses (commit library_db (exec (DeleteCourses (course_id_is ''c2'')) library_db))) =
     [''c1''] \<and>
   map p_uploads
     (profiles (commit library_db (exec (DeleteCourses (course_id_is ''c2'')) library_db))) =
     [Some 1, Some 0]"
  by (simp add: example_defs statement_defs)

end
